theory Spec2Isabelle
  imports Complex_Main "HOL-Library.Word"
begin

section \<open>Single-precision values\<close>

text \<open>
  Every buffer of \<^verbatim>\<open>naive_tsne.cu\<close> is a \<^verbatim>\<open>thrust::device_vector<float>\<close>.
  A float is modelled as a finite real, one of the two infinities, or not-a-number, with the
  IEEE 754 rules for the special values. An operation returns its exact result taken into
  the range of float: a result of magnitude \<^verbatim>\<open>2^128 - 2^103\<close> or more, which rounds
  beyond the largest float, is the infinity of its sign, and a result of \<^verbatim>\<open>exp\<close> or
  \<^verbatim>\<open>pow\<close> of at most \<^verbatim>\<open>2^-150\<close>, which rounds below the smallest float, is zero.
  A reduction (\<^verbatim>\<open>thrust::reduce\<close>, the sums inside a cuBLAS product) is one operation:
  the libraries fix no order of the additions.

  What is left out: the rounding of the mantissa, the flushing to zero of a sum, product or
  quotient too small for a float, and the sign of zero (a division of a non-zero finite
  value by zero takes the sign of the dividend). An equality of finite values below is the
  equality of exact arithmetic, which the floats meet up to rounding.
\<close>

datatype f32 = Fin real | PInf | NInf | NaN

fun is_fin :: "f32 \<Rightarrow> bool" where
  "is_fin (Fin r) = True"
| "is_fin PInf = False"
| "is_fin NInf = False"
| "is_fin NaN = False"

fun val :: "f32 \<Rightarrow> real" where
  "val (Fin r) = r"
| "val PInf = 0"
| "val NInf = 0"
| "val NaN = 0"

fun fneg :: "f32 \<Rightarrow> f32" where
  "fneg (Fin a) = Fin (- a)"
| "fneg PInf = NInf"
| "fneg NInf = PInf"
| "fneg NaN = NaN"

text \<open>The largest float is \<^verbatim>\<open>2^128 - 2^104\<close>; a real result rounds to an infinity from
  \<^verbatim>\<open>2^128 - 2^103\<close> on.\<close>

definition flt_overflow :: real where
  "flt_overflow = 2 ^ 128 - 2 ^ 103"

fun to_range :: "f32 \<Rightarrow> f32" where
  "to_range (Fin r) =
     (if flt_overflow \<le> r then PInf else if r \<le> - flt_overflow then NInf else Fin r)"
| "to_range PInf = PInf"
| "to_range NInf = NInf"
| "to_range NaN = NaN"

text \<open>The IEEE results before the range is taken.\<close>

fun add_exact :: "f32 \<Rightarrow> f32 \<Rightarrow> f32" where
  "add_exact (Fin a) (Fin b) = Fin (a + b)"
| "add_exact (Fin a) PInf = PInf"
| "add_exact (Fin a) NInf = NInf"
| "add_exact (Fin a) NaN = NaN"
| "add_exact PInf (Fin b) = PInf"
| "add_exact PInf PInf = PInf"
| "add_exact PInf NInf = NaN"
| "add_exact PInf NaN = NaN"
| "add_exact NInf (Fin b) = NInf"
| "add_exact NInf PInf = NaN"
| "add_exact NInf NInf = NInf"
| "add_exact NInf NaN = NaN"
| "add_exact NaN y = NaN"

fun mul_exact :: "f32 \<Rightarrow> f32 \<Rightarrow> f32" where
  "mul_exact (Fin a) (Fin b) = Fin (a * b)"
| "mul_exact (Fin a) PInf = (if a = 0 then NaN else if 0 < a then PInf else NInf)"
| "mul_exact (Fin a) NInf = (if a = 0 then NaN else if 0 < a then NInf else PInf)"
| "mul_exact (Fin a) NaN = NaN"
| "mul_exact PInf (Fin b) = (if b = 0 then NaN else if 0 < b then PInf else NInf)"
| "mul_exact PInf PInf = PInf"
| "mul_exact PInf NInf = NInf"
| "mul_exact PInf NaN = NaN"
| "mul_exact NInf (Fin b) = (if b = 0 then NaN else if 0 < b then NInf else PInf)"
| "mul_exact NInf PInf = NInf"
| "mul_exact NInf NInf = PInf"
| "mul_exact NInf NaN = NaN"
| "mul_exact NaN y = NaN"

fun div_exact :: "f32 \<Rightarrow> f32 \<Rightarrow> f32" where
  "div_exact (Fin a) (Fin b) =
     (if b = 0 then (if a = 0 then NaN else if 0 < a then PInf else NInf) else Fin (a / b))"
| "div_exact (Fin a) PInf = Fin 0"
| "div_exact (Fin a) NInf = Fin 0"
| "div_exact (Fin a) NaN = NaN"
| "div_exact PInf (Fin b) = (if 0 \<le> b then PInf else NInf)"
| "div_exact PInf PInf = NaN"
| "div_exact PInf NInf = NaN"
| "div_exact PInf NaN = NaN"
| "div_exact NInf (Fin b) = (if 0 \<le> b then NInf else PInf)"
| "div_exact NInf PInf = NaN"
| "div_exact NInf NInf = NaN"
| "div_exact NInf NaN = NaN"
| "div_exact NaN y = NaN"

text \<open>The float operations \<^verbatim>\<open>+\<close>, \<^verbatim>\<open>-\<close>, \<^verbatim>\<open>*\<close> and \<^verbatim>\<open>/\<close>.\<close>

definition fadd :: "f32 \<Rightarrow> f32 \<Rightarrow> f32" where
  "fadd x y = to_range (add_exact x y)"

definition fsub :: "f32 \<Rightarrow> f32 \<Rightarrow> f32" where
  "fsub x y = fadd x (fneg y)"

definition fmul :: "f32 \<Rightarrow> f32 \<Rightarrow> f32" where
  "fmul x y = to_range (mul_exact x y)"

definition fdiv :: "f32 \<Rightarrow> f32 \<Rightarrow> f32" where
  "fdiv x y = to_range (div_exact x y)"

text \<open>The comparisons: every ordered comparison with a NaN is false, \<^verbatim>\<open>!=\<close> is the
  negation of \<^verbatim>\<open>==\<close> and so true as soon as one side is NaN.\<close>

fun feq :: "f32 \<Rightarrow> f32 \<Rightarrow> bool" where
  "feq NaN y = False"
| "feq x NaN = False"
| "feq x y = (x = y)"

definition fne :: "f32 \<Rightarrow> f32 \<Rightarrow> bool" where
  "fne x y = (\<not> feq x y)"

fun flt :: "f32 \<Rightarrow> f32 \<Rightarrow> bool" where
  "flt (Fin a) (Fin b) = (a < b)"
| "flt (Fin a) PInf = True"
| "flt NInf (Fin b) = True"
| "flt NInf PInf = True"
| "flt x y = False"

definition fgt :: "f32 \<Rightarrow> f32 \<Rightarrow> bool" where
  "fgt x y = flt y x"

text \<open>The library functions \<^verbatim>\<open>exp\<close>, \<^verbatim>\<open>log\<close>, \<^verbatim>\<open>log2\<close> and \<^verbatim>\<open>pow(2, x)\<close>. The float
  \<^verbatim>\<open>exp(-128)\<close> is 0 and \<^verbatim>\<open>exp(100)\<close> is infinite.\<close>

fun fexp :: "f32 \<Rightarrow> f32" where
  "fexp (Fin a) = (if exp a \<le> 1 / 2 ^ 150 then Fin 0 else to_range (Fin (exp a)))"
| "fexp PInf = PInf"
| "fexp NInf = Fin 0"
| "fexp NaN = NaN"

fun flog :: "f32 \<Rightarrow> f32" where
  "flog (Fin a) = (if a < 0 then NaN else if a = 0 then NInf else Fin (ln a))"
| "flog PInf = PInf"
| "flog NInf = NaN"
| "flog NaN = NaN"

fun flog2 :: "f32 \<Rightarrow> f32" where
  "flog2 (Fin a) = (if a < 0 then NaN else if a = 0 then NInf else Fin (log 2 a))"
| "flog2 PInf = PInf"
| "flog2 NInf = NaN"
| "flog2 NaN = NaN"

fun fpow2 :: "f32 \<Rightarrow> f32" where
  "fpow2 (Fin a) = (if 2 powr a \<le> 1 / 2 ^ 150 then Fin 0 else to_range (Fin (2 powr a)))"
| "fpow2 PInf = PInf"
| "fpow2 NInf = Fin 0"
| "fpow2 NaN = NaN"

text \<open>\<^verbatim>\<open>thrust::reduce(first, last, 0.0f, thrust::plus<float>())\<close>: the sum of a range,
  starting from zero. The order of the additions is not fixed; the model adds exactly and
  takes the range of the result.\<close>

definition fsum :: "f32 list \<Rightarrow> f32" where
  "fsum xs = to_range (foldl add_exact (Fin 0) xs)"

section \<open>The functors of the file\<close>

definition func_inc_inv :: "f32 \<Rightarrow> f32" where
  "func_inc_inv x = fdiv (Fin 1) (fadd x (Fin 1))"

definition func_kl :: "f32 \<Rightarrow> f32 \<Rightarrow> f32" where
  "func_kl x y = (if feq x (Fin 0) then Fin 0 else fmul x (fsub (flog x) (flog y)))"

definition func_exp :: "f32 \<Rightarrow> f32" where
  "func_exp x = fexp x"

definition func_entropy_kernel :: "f32 \<Rightarrow> f32" where
  "func_entropy_kernel x = (let v = fmul x (flog2 x) in if fne v v then Fin 0 else v)"

definition func_pow2 :: "f32 \<Rightarrow> f32" where
  "func_pow2 x = fpow2 x"

section \<open>The bound-update kernel of the calibrator\<close>

text \<open>
  A kernel is modelled by what one thread does. A thread reads and writes only the entries
  at its own index \<^verbatim>\<open>TID\<close>, so the threads of a launch do not interfere. An access
  outside a buffer is undefined behaviour in the source; the model returns \<open>OutOfBounds\<close>.
\<close>

datatype error = OutOfBounds

record calib_bufs =
  sigmas :: "f32 list"
  lower_bound :: "f32 list"
  upper_bound :: "f32 list"

text \<open>\<^verbatim>\<open>int TID = threadIdx.x + blockIdx.x * blockDim.x\<close>: the sum is computed on unsigned
  32-bit integers and stored in an \<^verbatim>\<open>int\<close>.\<close>

definition thread_id :: "32 word \<Rightarrow> 32 word \<Rightarrow> 32 word \<Rightarrow> 32 word" where
  "thread_id threadIdx blockIdx blockDim = threadIdx + blockIdx * blockDim"

text \<open>\<^verbatim>\<open>buf[TID]\<close> with \<^verbatim>\<open>TID\<close> an \<^verbatim>\<open>int\<close>: in range when \<open>0 \<le> TID < length buf\<close>.\<close>

definition in_range :: "32 word \<Rightarrow> 'a list \<Rightarrow> bool" where
  "in_range TID buf = (0 \<le> sint TID \<and> sint TID < int (length buf))"

text \<open>In \<^verbatim>\<open>TID > N\<close> the \<^verbatim>\<open>int\<close> is converted to \<^verbatim>\<open>unsigned int\<close>, the type of
  \<^verbatim>\<open>N\<close>: the comparison is the unsigned one, which is \<open><\<close> on words.\<close>

definition upper_lower_assign ::
  "calib_bufs \<Rightarrow> f32 list \<Rightarrow> f32 \<Rightarrow> 32 word \<Rightarrow> 32 word \<Rightarrow> error + calib_bufs" where
  "upper_lower_assign b perplexity target_perplexity N TID =
     (if TID > N then Inr b
      else if \<not> (in_range TID perplexity \<and> in_range TID (sigmas b)
                 \<and> in_range TID (upper_bound b) \<and> in_range TID (lower_bound b))
      then Inl OutOfBounds
      else
        let k = nat (sint TID);
            b1 = (if fgt (perplexity ! k) target_perplexity
                  then b\<lparr>upper_bound := (upper_bound b)[k := sigmas b ! k]\<rparr>
                  else b\<lparr>lower_bound := (lower_bound b)[k := sigmas b ! k]\<rparr>)
        in Inr (b1\<lparr>sigmas := (sigmas b1)[k := fdiv (fadd (upper_bound b1 ! k) (lower_bound b1 ! k)) (Fin 2)]\<rparr>))"

text \<open>The update of one point as the specification words it: a perplexity below the
  target moves the lower bound to the current bandwidth, anything else (equality included)
  moves the upper bound; then the bandwidth becomes the midpoint.\<close>

definition bound_update_spec :: "calib_bufs \<Rightarrow> f32 list \<Rightarrow> f32 \<Rightarrow> nat \<Rightarrow> calib_bufs" where
  "bound_update_spec b perplexity target k =
     (let b1 = (if flt (perplexity ! k) target
                then b\<lparr>lower_bound := (lower_bound b)[k := sigmas b ! k]\<rparr>
                else b\<lparr>upper_bound := (upper_bound b)[k := sigmas b ! k]\<rparr>)
      in b1\<lparr>sigmas := (sigmas b1)[k := fdiv (fadd (lower_bound b1 ! k) (upper_bound b1 ! k)) (Fin 2)]\<rparr>)"

text \<open>The kernel \<^verbatim>\<open>perplexity_search\<close> computes the perplexity of its point itself and then
  updates the bounds. Nothing in the file launches it. Here \<^verbatim>\<open>N\<close> is an \<^verbatim>\<open>int\<close>, so the guard
  is the signed comparison; \<open>N\<close> is taken in the range where \<^verbatim>\<open>i + TID*N\<close> does not
  overflow.\<close>

record search_bufs = calib_bufs +
  perplexity_buf :: "f32 list"

text \<open>\<^verbatim>\<open>for (int i = 0; i < N; i++) if (i != TID) entropy += pij[i + TID*N]*log2(pij[i + TID*N]);\<close>\<close>

fun entropy_loop :: "f32 list \<Rightarrow> int \<Rightarrow> int \<Rightarrow> nat list \<Rightarrow> f32 \<Rightarrow> error + f32" where
  "entropy_loop pij N t [] entropy = Inr entropy"
| "entropy_loop pij N t (i # rest) entropy =
     (if int i \<noteq> t
      then (let idx = int i + t * N
            in if 0 \<le> idx \<and> idx < int (length pij)
               then entropy_loop pij N t rest
                      (fadd entropy (fmul (pij ! nat idx) (flog2 (pij ! nat idx))))
               else Inl OutOfBounds)
      else entropy_loop pij N t rest entropy)"

definition perplexity_search ::
  "search_bufs \<Rightarrow> f32 list \<Rightarrow> f32 \<Rightarrow> int \<Rightarrow> 32 word \<Rightarrow> error + search_bufs" where
  "perplexity_search b pij target_perplexity N TID =
     (if sint TID > N then Inr b
      else case entropy_loop pij N (sint TID) [0..<nat N] (Fin 0) of
        Inl e \<Rightarrow> Inl e
      | Inr entropy \<Rightarrow>
          if \<not> (in_range TID (perplexity_buf b) \<and> in_range TID (sigmas b)
                 \<and> in_range TID (upper_bound b) \<and> in_range TID (lower_bound b))
          then Inl OutOfBounds
          else
            let k = nat (sint TID);
                b1 = b\<lparr>perplexity_buf := (perplexity_buf b)[k := fpow2 (fmul (Fin (- 1)) entropy)]\<rparr>;
                b2 = (if flt (perplexity_buf b1 ! k) target_perplexity
                      then b1\<lparr>upper_bound := (upper_bound b1)[k := sigmas b1 ! k]\<rparr>
                      else b1\<lparr>lower_bound := (lower_bound b1)[k := sigmas b1 ! k]\<rparr>)
            in Inr (b2\<lparr>sigmas := (sigmas b2)[k := fdiv (fadd (upper_bound b2 ! k) (lower_bound b2 ! k)) (Fin 2)]\<rparr>))"

section \<open>Dense matrices and the linear-algebra collaborators\<close>

text \<open>
  A matrix with \<open>N\<close> rows is a flat buffer; entry \<open>(i, j)\<close> is at index \<open>i + j * N\<close>
  (the debug dump of the source reads \<^verbatim>\<open>points[i + j*N]\<close> for coordinate \<open>j\<close> of point
  \<open>i\<close>, and every cuBLAS call passes \<open>N\<close> as leading dimension). The buffers have
  exactly the sizes \<^verbatim>\<open>tsne\<close> allocates (\<open>N * N\<close>, \<open>N * PROJDIM\<close>), so an operation that
  writes a whole matrix is modelled as returning the new contents of its output buffer.
\<close>

definition entry :: "f32 list \<Rightarrow> nat \<Rightarrow> nat \<Rightarrow> nat \<Rightarrow> f32" where
  "entry m N i j = m ! (i + j * N)"

text \<open>Modelled from the spec: \<^verbatim>\<open>zero_diagonal\<close> is not in the sources. The spec: "Zero the
  diagonal (a point is never its own neighbor)".\<close>

definition zero_diagonal :: "f32 list \<Rightarrow> nat \<Rightarrow> f32 list" where
  "zero_diagonal m N =
     map (\<lambda>k. if k < N * N \<and> k mod N = k div N then Fin 0 else m ! k) [0..<length m]"

text \<open>Modelled from the spec: \<^verbatim>\<open>Math::square\<close> is not in the sources; it squares every
  entry of its first argument into its second.\<close>

definition math_square :: "f32 list \<Rightarrow> f32 list" where
  "math_square v = map (\<lambda>x. fmul x x) v"

text \<open>Modelled from the spec: \<^verbatim>\<open>Distance::squared_pairwise_dist\<close> is not in the sources.
  The spec: "pairwise squared distance: (matrix N\<times>D) \<rightarrow> N\<times>N matrix", the squared Euclidean
  distance of point \<open>i\<close> and point \<open>j\<close> at entry \<open>(i, j)\<close>.\<close>

definition squared_pairwise_dist :: "f32 list \<Rightarrow> nat \<Rightarrow> nat \<Rightarrow> f32 list" where
  "squared_pairwise_dist points N NDIMS =
     map (\<lambda>idx. fsum (map (\<lambda>k. let d = fsub (entry points N (idx mod N) k)
                                              (entry points N (idx div N) k)
                                 in fmul d d) [0..<NDIMS]))
         [0..<N * N]"

text \<open>Modelled from the spec: \<^verbatim>\<open>Reduce::reduce_alpha\<close> and \<^verbatim>\<open>Reduce::reduce_sum\<close> are
  not in the sources. The spec: "sum a matrix's rows or columns (with optional scale factor)
  to a vector". With axis 1, entry \<open>i\<close> of the result is the scaled sum of the entries
  \<open>(i, j)\<close> over all \<open>j\<close>; with axis 0, entry \<open>j\<close> is the scaled sum over all \<open>i\<close>.\<close>

definition reduce_alpha :: "f32 list \<Rightarrow> nat \<Rightarrow> nat \<Rightarrow> f32 \<Rightarrow> nat \<Rightarrow> f32 list" where
  "reduce_alpha m N M alpha axis =
     (if axis = 0
      then map (\<lambda>j. fmul alpha (fsum (map (\<lambda>i. entry m N i j) [0..<N]))) [0..<M]
      else map (\<lambda>i. fmul alpha (fsum (map (\<lambda>j. entry m N i j) [0..<M]))) [0..<N])"

definition reduce_sum :: "f32 list \<Rightarrow> nat \<Rightarrow> nat \<Rightarrow> nat \<Rightarrow> f32 list" where
  "reduce_sum m N M axis = reduce_alpha m N M (Fin 1) axis"

text \<open>Modelled from the spec: \<^verbatim>\<open>Broadcast::broadcast_matrix_vector\<close> is not in the
  sources. The spec: "divide a matrix by a vector along a chosen axis with an optional scale
  factor". With axis 0, entry \<open>(i, j)\<close> is combined with the scaled entry \<open>i\<close> of the
  vector, which is what the comment of the source says of its first use
  (\<^verbatim>\<open>matrix[i,:] gets divided by sigma_i^2\<close>); with axis 1, with the scaled entry \<open>j\<close>.
  The entries \<open>(i, j)\<close> over all \<open>j\<close> are what the source's comments and the spec call
  column \<open>i\<close>: the part of the matrix that belongs to point \<open>i\<close>.\<close>

definition broadcast_matrix_vector ::
  "f32 list \<Rightarrow> f32 list \<Rightarrow> nat \<Rightarrow> nat \<Rightarrow> (f32 \<Rightarrow> f32 \<Rightarrow> f32) \<Rightarrow> nat \<Rightarrow> f32 \<Rightarrow> f32 list" where
  "broadcast_matrix_vector m v N M binop axis alpha =
     map (\<lambda>k. binop (m ! k) (fmul alpha (v ! (if axis = 0 then k mod N else k div N))))
         [0..<N * M]"

text \<open>Modelled from the spec: \<^verbatim>\<open>Math::max_norm\<close> is not in the sources. The spec:
  "max-value normalization of a matrix", "apply a max-norm rescaling to the input points":
  every entry is divided by the largest absolute value. The source calls it as a statement
  on the caller's buffer, \<^verbatim>\<open>Math::max_norm(points)\<close>, so it works in place.\<close>

fun fabs :: "f32 \<Rightarrow> f32" where
  "fabs (Fin a) = Fin \<bar>a\<bar>"
| "fabs PInf = PInf"
| "fabs NInf = PInf"
| "fabs NaN = NaN"

definition fmax :: "f32 \<Rightarrow> f32 \<Rightarrow> f32" where
  "fmax a b = (if flt a b then b else a)"

definition max_norm :: "f32 list \<Rightarrow> f32 list" where
  "max_norm v = (let max_val = foldl fmax (Fin 0) (map fabs v) in map (\<lambda>x. fdiv x max_val) v)"

text \<open>cuBLAS. \<^verbatim>\<open>cublasSgeam\<close> with operations N and T on \<open>m \<times> n\<close> matrices:
  \<open>C = alpha * A + beta * B\<^sup>T\<close>, where \<open>B\<close> has \<open>n\<close> rows.\<close>

definition cublasSgeam_N_T :: "nat \<Rightarrow> nat \<Rightarrow> f32 \<Rightarrow> f32 list \<Rightarrow> f32 \<Rightarrow> f32 list \<Rightarrow> f32 list" where
  "cublasSgeam_N_T m n alpha A beta B =
     map (\<lambda>idx. fadd (fmul alpha (entry A m (idx mod m) (idx div m)))
                      (fmul beta (entry B n (idx div m) (idx mod m))))
         [0..<m * n]"

text \<open>\<^verbatim>\<open>cublasSgemm\<close> with operations N and N: \<open>C = alpha * A * B + beta * C\<close> for
  \<open>A\<close> of size \<open>m \<times> k\<close>, \<open>B\<close> of size \<open>k \<times> n\<close> and \<open>C\<close> of size \<open>m \<times> n\<close>. When \<open>beta\<close>
  is zero, cuBLAS does not read \<open>C\<close>.\<close>

definition cublasSgemm_N_N ::
  "nat \<Rightarrow> nat \<Rightarrow> nat \<Rightarrow> f32 \<Rightarrow> f32 list \<Rightarrow> f32 list \<Rightarrow> f32 \<Rightarrow> f32 list \<Rightarrow> f32 list" where
  "cublasSgemm_N_N m n k alpha A B beta C =
     map (\<lambda>idx. let ab = fmul alpha (fsum (map (\<lambda>l. fmul (entry A m (idx mod m) l)
                                                         (entry B k l (idx div m))) [0..<k]))
                 in if beta = Fin 0 then ab else fadd ab (fmul beta (C ! idx)))
         [0..<m * n]"

section \<open>The perplexity of the calibrator\<close>

text \<open>\<^verbatim>\<open>thrust_search_perplexity\<close>, up to the launch of \<^verbatim>\<open>upper_lower_assign\<close>: the
  entropy terms, their diagonal zeroed, the negated sums, and the perplexities.\<close>

definition entropy_terms :: "f32 list \<Rightarrow> nat \<Rightarrow> f32 list" where
  "entropy_terms pij N = zero_diagonal (map func_entropy_kernel pij) N"

definition neg_entropy :: "f32 list \<Rightarrow> nat \<Rightarrow> f32 list" where
  "neg_entropy pij N = reduce_alpha (entropy_terms pij N) N N (Fin (- 1)) 1"

definition search_perplexity :: "f32 list \<Rightarrow> nat \<Rightarrow> f32 list" where
  "search_perplexity pij N = map func_pow2 (neg_entropy pij N)"

section \<open>Affinity construction\<close>

text \<open>\<^verbatim>\<open>compute_pij\<close> in three parts: the Gaussian kernel values with zero diagonal (the
  buffer \<^verbatim>\<open>pij_vals\<close> after line 155), their normalisation (the buffer just before the
  symmetrisation), and the whole function.\<close>

definition pij_kernel :: "f32 list \<Rightarrow> f32 list \<Rightarrow> nat \<Rightarrow> nat \<Rightarrow> f32 list" where
  "pij_kernel points sigma N NDIMS =
     (let pv = squared_pairwise_dist points N NDIMS;
          sigma_squared = math_square sigma;
          pv = broadcast_matrix_vector pv sigma_squared N N fdiv 0 (Fin (- 2));
          pv = map func_exp pv
      in zero_diagonal pv N)"

definition pij_vals :: "f32 list \<Rightarrow> f32 list \<Rightarrow> nat \<Rightarrow> nat \<Rightarrow> f32 list" where
  "pij_vals points sigma N NDIMS =
     (let pv = pij_kernel points sigma N NDIMS;
          col_sums = reduce_sum pv N N 1
      in broadcast_matrix_vector pv col_sums N N fdiv 0 (Fin 1))"

definition compute_pij :: "f32 list \<Rightarrow> f32 list \<Rightarrow> nat \<Rightarrow> nat \<Rightarrow> f32 list" where
  "compute_pij points sigma N NDIMS =
     (let pv = pij_vals points sigma N NDIMS
      in cublasSgeam_N_T N N (Fin (1 / 2)) pv (Fin (1 / 2)) pv)"

section \<open>The gradient computation\<close>

text \<open>The three buffers \<^verbatim>\<open>compute_gradients\<close> writes. The function is cut at the
  comment blocks of the source: the low-dimensional affinities (lines 205 to 219), the loss
  (231 to 237), the coefficients (239 to 246) and the forces (251 to 269).\<close>

record grad_bufs =
  b_forces :: "f32 list"
  b_dist :: "f32 list"
  b_qij :: "f32 list"

definition gradients_affinities :: "grad_bufs \<Rightarrow> f32 list \<Rightarrow> nat \<Rightarrow> nat \<Rightarrow> grad_bufs" where
  "gradients_affinities b ys N PROJDIM =
     (let b = b\<lparr>b_dist := squared_pairwise_dist ys N PROJDIM\<rparr>;
          b = b\<lparr>b_dist := map func_inc_inv (b_dist b)\<rparr>;
          b = b\<lparr>b_dist := zero_diagonal (b_dist b) N\<rparr>;
          total = fsum (b_dist b)
      in b\<lparr>b_qij := map (\<lambda>x. fdiv x total) (b_dist b)\<rparr>)"

definition gradients_loss :: "grad_bufs \<Rightarrow> f32 list \<Rightarrow> nat \<Rightarrow> f32" where
  "gradients_loss b pij N =
     (let loss_terms = map2 func_kl pij (b_qij b);
          loss_terms = zero_diagonal loss_terms N
      in fsum loss_terms)"

definition gradients_coefficients :: "grad_bufs \<Rightarrow> f32 list \<Rightarrow> grad_bufs" where
  "gradients_coefficients b pij =
     (let b = b\<lparr>b_qij := map2 fsub pij (b_qij b)\<rparr>
      in b\<lparr>b_qij := map2 fmul (b_qij b) (b_dist b)\<rparr>)"

definition gradients_forces :: "grad_bufs \<Rightarrow> f32 list \<Rightarrow> nat \<Rightarrow> nat \<Rightarrow> f32 \<Rightarrow> grad_bufs" where
  "gradients_forces b ys N PROJDIM eta =
     (let ones = replicate (PROJDIM * N) (Fin 1);
          b = b\<lparr>b_forces := cublasSgemm_N_N N PROJDIM N (Fin 1) (b_qij b) ones (Fin 0) (b_forces b)\<rparr>;
          b = b\<lparr>b_forces := map2 fmul (b_forces b) ys\<rparr>;
          alpha = fmul (Fin 4) eta;
          beta = fmul (Fin (- 4)) eta
      in b\<lparr>b_forces := cublasSgemm_N_N N PROJDIM N alpha (b_qij b) ys beta (b_forces b)\<rparr>)"

definition compute_gradients ::
  "grad_bufs \<Rightarrow> f32 list \<Rightarrow> f32 list \<Rightarrow> nat \<Rightarrow> nat \<Rightarrow> f32 \<Rightarrow> grad_bufs \<times> f32" where
  "compute_gradients b ys pij N PROJDIM eta =
     (let b = gradients_affinities b ys N PROJDIM;
          loss = gradients_loss b pij N;
          b = gradients_coefficients b pij;
          b = gradients_forces b ys N PROJDIM eta
      in (b, loss))"

text \<open>The force matrix as the specification writes it,
  \<open>4\<eta> \<cdot> (Y \<odot> (C \<cdot> 1) - C \<cdot> Y)\<close>, for a coefficient matrix \<open>C\<close>.\<close>

definition forces_spec :: "f32 list \<Rightarrow> f32 list \<Rightarrow> nat \<Rightarrow> nat \<Rightarrow> f32 \<Rightarrow> f32 list" where
  "forces_spec C ys N PROJDIM eta =
     map (\<lambda>idx. fmul (fmul (Fin 4) eta)
                  (fsub (fmul (ys ! idx) (fsum (map (\<lambda>j. entry C N (idx mod N) j) [0..<N])))
                        (fsum (map (\<lambda>j. fmul (entry C N (idx mod N) j) (entry ys N j (idx div N)))
                                   [0..<N]))))
         [0..<N * PROJDIM]"

section \<open>The optimisation loop\<close>

record tsne_state =
  st_ys :: "f32 list"
  st_yt_1 :: "f32 list"
  st_momentum :: "f32 list"
  st_bufs :: grad_bufs
  st_loss :: f32

text \<open>One pass through the body of the \<^verbatim>\<open>for\<close> loop of \<^verbatim>\<open>tsne\<close>. The report printed
  every tenth iteration and the debug dump do not change the state.\<close>

definition tsne_step :: "f32 list \<Rightarrow> nat \<Rightarrow> nat \<Rightarrow> f32 \<Rightarrow> f32 \<Rightarrow> tsne_state \<Rightarrow> tsne_state" where
  "tsne_step pij N PROJDIM eta momentum_weight st =
     (let (b, l) = compute_gradients (st_bufs st) (st_ys st) pij N PROJDIM eta;
          mom = map2 fsub (st_ys st) (st_yt_1 st);
          mom = map (\<lambda>x. fmul x momentum_weight) mom;
          prev = st_ys st;
          y = map2 fadd (st_ys st) (b_forces b);
          y = map2 fadd y mom
      in \<lparr>st_ys = y, st_yt_1 = prev, st_momentum = mom, st_bufs = b, st_loss = l\<rparr>)"

text \<open>\<^verbatim>\<open>for (int i = 0; i < 5000; i++) { ... }\<close>, entered at any value of the counter.\<close>

function tsne_loop ::
  "f32 list \<Rightarrow> nat \<Rightarrow> nat \<Rightarrow> f32 \<Rightarrow> f32 \<Rightarrow> int \<Rightarrow> tsne_state \<Rightarrow> tsne_state" where
  "tsne_loop pij N PROJDIM eta momentum_weight i st =
     (if i < 5000
      then tsne_loop pij N PROJDIM eta momentum_weight (i + 1)
             (tsne_step pij N PROJDIM eta momentum_weight st)
      else st)"
  by pat_completeness auto
termination
  by (relation "measure (\<lambda>(pij, N, PROJDIM, eta, momentum_weight, i, st). nat (5000 - i))") auto

declare tsne_loop.simps [simp del]

text \<open>\<^verbatim>\<open>tsne\<close>. The two random draws (\<^verbatim>\<open>Random::rand_in_range(N, 0.2f, 0.4f)\<close> for the
  bandwidths and \<^verbatim>\<open>Random::random_vector(N * PROJDIM)\<close> for the embedding) are inputs of
  the model. \<^verbatim>\<open>points\<close> is a reference to the caller's buffer: the result is the contents
  of that buffer on return, and the returned embedding. The momentum weight \<^verbatim>\<open>0.8f\<close> is the
  float \<^verbatim>\<open>13421773 / 2^24\<close>.\<close>

definition tsne ::
  "f32 list \<Rightarrow> nat \<Rightarrow> nat \<Rightarrow> nat \<Rightarrow> f32 list \<Rightarrow> f32 list \<Rightarrow> f32 list \<times> f32 list" where
  "tsne points N NDIMS PROJDIM rand_sigmas rand_ys =
     (let points = max_norm points;
          sigmas = rand_sigmas;
          pij = compute_pij points sigmas N NDIMS;
          st = \<lparr>st_ys = rand_ys,
                st_yt_1 = replicate (N * PROJDIM) (Fin 0),
                st_momentum = replicate (N * PROJDIM) (Fin 0),
                st_bufs = \<lparr>b_forces = replicate (N * PROJDIM) (Fin 0),
                        b_dist = replicate (N * N) (Fin 0),
                        b_qij = replicate (N * N) (Fin 0)\<rparr>,
                st_loss = Fin 0\<rparr>;
          st = tsne_loop pij N PROJDIM (Fin 1) (Fin (13421773 / 16777216)) 0 st
      in (points, st_ys st))"

section \<open>Properties\<close>

subsection \<open>The range of float\<close>

lemma flt_overflow_pos: "0 < flt_overflow"
  by (simp add: flt_overflow_def)

lemma to_range_zero [simp]: "to_range (Fin 0) = Fin 0"
  using flt_overflow_pos by simp

lemma to_range_idem [simp]: "to_range (to_range x) = to_range x"
  using flt_overflow_pos by (cases x) auto

lemma to_range_nan [simp]: "to_range x = NaN \<longleftrightarrow> x = NaN"
  by (cases x) auto

lemma add_exact_zero_right: "add_exact x (Fin 0) = x"
  by (cases x) simp_all

lemma add_exact_commute: "add_exact x y = add_exact y x"
  by (cases x; cases y) simp_all

lemma fadd_commute: "fadd x y = fadd y x"
  by (simp add: fadd_def add_exact_commute)

lemma fmul_one_left: "fmul (Fin 1) x = to_range x"
  by (cases x) (simp_all add: fmul_def)

lemma fdiv_zero_left:
  "fdiv (Fin 0) y = (if y = Fin 0 \<or> y = NaN then NaN else Fin 0)"
  using flt_overflow_pos by (cases y) (auto simp: fdiv_def)

lemma feq_self: "feq x x \<longleftrightarrow> x \<noteq> NaN"
  by (cases x) simp_all

subsection \<open>The bound-update kernel\<close>

text \<open>C9. The claim: a thread that passes the guard \<^verbatim>\<open>if (TID > N) return;\<close> only reads
  and writes inside the four buffers of length \<open>N\<close>. The guard lets \<open>TID = N\<close> through.
  With \<open>N = 1\<close> the launch has one block of 32 threads; thread 1 of block 0 has
  \<open>TID = 1\<close>, is not stopped by the guard and accesses index 1 of buffers of length 1.\<close>

theorem upper_lower_assign_tid_eq_N_out_of_bounds:
  "thread_id 1 0 32 = 1 \<and>
   \<not> ((1 :: 32 word) > 1) \<and>
   upper_lower_assign \<lparr>sigmas = [Fin 1], lower_bound = [Fin 0], upper_bound = [Fin 4]\<rparr>
       [Fin 3] (Fin 2) 1 (thread_id 1 0 32) = Inl OutOfBounds"
  by (simp add: thread_id_def upper_lower_assign_def in_range_def)

lemma sint_nonneg_eq_uint: "0 \<le> sint (w :: 32 word) \<Longrightarrow> sint w = uint w"
proof -
  assume a: "0 \<le> sint w"
  have "sint w < 2 ^ 31" using sint_lt[of w] by simp
  then have "sint w < 2 ^ 32" by simp
  with a have "take_bit 32 (sint w) = sint w" by (intro take_bit_int_eq_self)
  then show ?thesis using uint_sint[of w] by simp
qed

text \<open>The same for every \<open>N\<close>: the thread with \<open>TID = N\<close> passes the guard and is out of
  range of a buffer of length \<open>N\<close>.\<close>

lemma upper_lower_assign_tid_eq_N:
  assumes "length perplexity = unat N"
  shows "upper_lower_assign b perplexity target N N = Inl OutOfBounds"
proof -
  have "\<not> in_range N perplexity"
  proof
    assume r: "in_range N perplexity"
    then have "sint N = uint N" by (intro sint_nonneg_eq_uint) (simp add: in_range_def)
    with r assms show False by (simp add: in_range_def)
  qed
  then show ?thesis by (simp add: upper_lower_assign_def)
qed

subsection \<open>The calibration step\<close>

lemma sint_small: "uint (w :: 32 word) < 2 ^ 31 \<Longrightarrow> sint w = uint w"
proof -
  assume a: "uint w < 2 ^ 31"
  have "- (2 ^ 31) \<le> uint w" by (rule order_trans[of _ 0]) simp_all
  with a have "signed_take_bit 31 (uint w) = uint w"
    by (intro signed_take_bit_int_eq_self) simp_all
  then show ?thesis by (simp add: sint_uint)
qed

lemma feq_not_fgt: "feq x y \<Longrightarrow> \<not> fgt x y"
  by (cases x; cases y) (auto simp: fgt_def)

text \<open>C3. The claim: a perplexity below the target moves the lower bound, any other
  (equality included) the upper bound, and the bandwidth becomes the midpoint. The kernel
  tests \<^verbatim>\<open>perplexity[TID] > target_perplexity\<close>: a perplexity equal to the target moves
  the lower bound. At \<open>\<sigma> = 1\<close>, bounds \<open>0\<close> and \<open>4\<close>, perplexity and target both \<open>2\<close>,
  the kernel leaves the bounds \<open>1\<close> and \<open>4\<close> and the bandwidth \<open>5/2\<close>, the claim the
  bounds \<open>0\<close> and \<open>1\<close> and the bandwidth \<open>1/2\<close>.\<close>

theorem upper_lower_assign_equal_perplexity_differs:
  "upper_lower_assign \<lparr>sigmas = [Fin 1], lower_bound = [Fin 0], upper_bound = [Fin 4]\<rparr>
       [Fin 2] (Fin 2) 1 0
   \<noteq> Inr (bound_update_spec \<lparr>sigmas = [Fin 1], lower_bound = [Fin 0], upper_bound = [Fin 4]\<rparr>
            [Fin 2] (Fin 2) 0)"
  by (simp add: upper_lower_assign_def in_range_def bound_update_spec_def fgt_def
      fadd_def fdiv_def flt_overflow_def)

text \<open>C3, as the code has it: for every point \<open>i = TID < N\<close> (with \<open>N\<close> in the range of
  \<^verbatim>\<open>int\<close> and buffers of length \<open>N\<close>), a perplexity above the target moves the upper
  bound to the current bandwidth; any other perplexity (below the target, equal to it, or
  NaN) moves the lower bound; the other bound is kept, and the bandwidth becomes
  \<open>(upper + lower) / 2\<close> of the updated bounds.\<close>

theorem upper_lower_assign_bisects:
  assumes "TID < N" and "uint N < 2 ^ 31"
    and "length perplexity = unat N" and "length (sigmas b) = unat N"
    and "length (lower_bound b) = unat N" and "length (upper_bound b) = unat N"
  shows "\<exists>b'. upper_lower_assign b perplexity target N TID = Inr b' \<and>
     (fgt (perplexity ! unat TID) target \<longrightarrow>
        upper_bound b' = (upper_bound b)[unat TID := sigmas b ! unat TID] \<and>
        lower_bound b' = lower_bound b) \<and>
     (\<not> fgt (perplexity ! unat TID) target \<longrightarrow>
        lower_bound b' = (lower_bound b)[unat TID := sigmas b ! unat TID] \<and>
        upper_bound b' = upper_bound b) \<and>
     (feq (perplexity ! unat TID) target \<longrightarrow>
        lower_bound b' ! unat TID = sigmas b ! unat TID) \<and>
     sigmas b' = (sigmas b)[unat TID :=
        fdiv (fadd (upper_bound b' ! unat TID) (lower_bound b' ! unat TID)) (Fin 2)]"
proof -
  from assms(1) have lt: "uint TID < uint N" by (simp add: word_less_def)
  with assms(2) have s: "sint TID = uint TID" by (intro sint_small) simp
  have ng: "\<not> TID > N" using assms(1) by simp
  have k: "nat (sint TID) = unat TID" using s by simp
  have r: "in_range TID perplexity" "in_range TID (sigmas b)"
      "in_range TID (upper_bound b)" "in_range TID (lower_bound b)"
    using lt s assms(3-6) by (simp_all add: in_range_def)
  have u: "unat TID < unat N" using assms(1) by (simp add: word_less_nat_alt)
  show ?thesis
    using feq_not_fgt[of "perplexity ! unat TID" target] u assms(3-6)
    by (simp add: upper_lower_assign_def ng r k Let_def)
qed

theorem upper_lower_assign_bisects_witness:
  "(0 :: 32 word) < 1 \<and> uint (1 :: 32 word) < 2 ^ 31 \<and> feq (Fin 2) (Fin 2) \<and>
   upper_lower_assign \<lparr>sigmas = [Fin 1], lower_bound = [Fin 0], upper_bound = [Fin 4]\<rparr>
       [Fin 2] (Fin 2) 1 0
   = Inr \<lparr>sigmas = [Fin (5 / 2)], lower_bound = [Fin 1], upper_bound = [Fin 4]\<rparr>"
  using upper_lower_assign_bisects[of 0 1 "[Fin 2]"
          "\<lparr>sigmas = [Fin 1], lower_bound = [Fin 0], upper_bound = [Fin 4]\<rparr>" "Fin 2"]
  by (auto simp: fgt_def fadd_def fdiv_def flt_overflow_def)

text \<open>The kernel \<^verbatim>\<open>perplexity_search\<close> has the two assignments the other way round: a
  perplexity below the target moves the upper bound, any other the lower bound.\<close>

lemma entropy_loop_in_range:
  assumes "0 \<le> t" and "t < N" and "length pij = nat (N * N)" and "\<forall>i\<in>set xs. int i < N"
  shows "\<exists>entropy'. entropy_loop pij N t xs entropy = Inr entropy'"
  using assms(4)
proof (induction xs arbitrary: entropy)
  case Nil
  then show ?case by simp
next
  case (Cons i xs)
  have i: "int i < N" using Cons.prems by simp
  have "int i + t * N < N + t * N" using i by simp
  also have "\<dots> = (t + 1) * N" by (simp add: algebra_simps)
  also have "\<dots> \<le> N * N" using assms(1,2) by (intro mult_right_mono) simp_all
  finally have u: "int i + t * N < N * N" .
  have l: "0 \<le> int i + t * N" using assms(1,2) by simp
  have "0 \<le> N * N" by simp
  then have "int (length pij) = N * N" using assms(3) by simp
  with u l show ?case using Cons by (simp add: Let_def)
qed

lemma perplexity_search_moves_upper_when_below:
  assumes "0 \<le> sint TID" and "sint TID < N" and "length pij = nat (N * N)"
    and "length (perplexity_buf b) = nat N" and "length (sigmas b) = nat N"
    and "length (lower_bound b) = nat N" and "length (upper_bound b) = nat N"
  shows "\<exists>b'. perplexity_search b pij target N TID = Inr b' \<and>
     (flt (perplexity_buf b' ! nat (sint TID)) target \<longrightarrow>
        upper_bound b' = (upper_bound b)[nat (sint TID) := sigmas b ! nat (sint TID)] \<and>
        lower_bound b' = lower_bound b) \<and>
     (\<not> flt (perplexity_buf b' ! nat (sint TID)) target \<longrightarrow>
        lower_bound b' = (lower_bound b)[nat (sint TID) := sigmas b ! nat (sint TID)] \<and>
        upper_bound b' = upper_bound b)"
proof -
  have "\<forall>i\<in>set [0..<nat N]. int i < N" by auto
  then obtain en where en: "entropy_loop pij N (sint TID) [0..<nat N] (Fin 0) = Inr en"
    using entropy_loop_in_range[OF assms(1,2,3), of "[0..<nat N]" "Fin 0"] by blast
  have r: "in_range TID (perplexity_buf b)" "in_range TID (sigmas b)"
      "in_range TID (upper_bound b)" "in_range TID (lower_bound b)"
    using assms by (simp_all add: in_range_def)
  have k: "nat (sint TID) < nat N" using assms(1,2) by simp
  show ?thesis
    using assms(2) k assms(4-7)
    by (simp add: perplexity_search_def en r Let_def)
qed

subsection \<open>Sums of floats\<close>

lemma foldl_add_exact_Fin: "foldl add_exact (Fin a) (map Fin rs) = Fin (a + sum_list rs)"
  by (induction rs arbitrary: a) (simp_all add: add.assoc)

lemma fsum_map_Fin: "fsum (map (\<lambda>k. Fin (g k)) ks) = to_range (Fin (sum_list (map g ks)))"
  using foldl_add_exact_Fin[of 0 "map g ks"] by (simp add: fsum_def comp_def)

lemma fsum_upt_Fin: "fsum (map (\<lambda>k. Fin (g k)) [0..<n]) = to_range (Fin (\<Sum>k<n. g k))"
  by (simp add: fsum_map_Fin interv_sum_list_conv_sum_set_nat atLeast0LessThan)

lemma foldl_add_exact_skip:
  "foldl add_exact a (map (\<lambda>k. if d k then Fin 0 else f k) ks) =
   foldl add_exact a (map f (filter (\<lambda>k. \<not> d k) ks))"
  by (induction ks arbitrary: a) (simp_all add: add_exact_zero_right)

lemma foldl_add_exact_no_nan:
  "a \<noteq> NaN \<Longrightarrow> a \<noteq> NInf \<Longrightarrow> \<forall>x\<in>set xs. x \<noteq> NaN \<and> x \<noteq> NInf \<Longrightarrow>
   foldl add_exact a xs \<noteq> NaN \<and> foldl add_exact a xs \<noteq> NInf"
proof (induction xs arbitrary: a)
  case Nil
  then show ?case by simp
next
  case (Cons x xs)
  have "add_exact a x \<noteq> NaN \<and> add_exact a x \<noteq> NInf"
    using Cons.prems by (cases a; cases x) simp_all
  then show ?case using Cons by simp
qed

lemma idx_lt: "i < N \<Longrightarrow> j < M \<Longrightarrow> i + j * N < N * (M::nat)"
proof -
  assume a: "i < N" "j < M"
  then have "i + j * N < N + j * N" by simp
  also have "\<dots> = (Suc j) * N" by simp
  also have "\<dots> \<le> M * N" using a(2) by (intro mult_le_mono1) simp
  finally show ?thesis by (simp add: mult.commute)
qed

lemma upt_0_1: "[0..<1] = [0::nat]" by simp
lemma upt_0_2: "[0..<2] = [0, 1::nat]" by code_simp
lemma upt_0_4: "[0..<4] = [0, 1, 2, 3::nat]" by code_simp

lemma perplexity_search_sample:
  "perplexity_search
     \<lparr>sigmas = [Fin 1, Fin 1], lower_bound = [Fin 0, Fin 0], upper_bound = [Fin 4, Fin 4],
      perplexity_buf = [Fin 0, Fin 0]\<rparr>
     [Fin 0, Fin 1, Fin 1, Fin 0] (Fin 2) 2 0
   = Inr \<lparr>sigmas = [Fin (1 / 2), Fin 1], lower_bound = [Fin 0, Fin 0],
          upper_bound = [Fin 1, Fin 4], perplexity_buf = [Fin 1, Fin 0]\<rparr>"
  by (simp add: perplexity_search_def upt_0_2 in_range_def Let_def
      fadd_def fmul_def fdiv_def flt_overflow_def)

subsection \<open>The entropy terms\<close>

text \<open>For a positive \<open>a\<close> the term \<open>a * log2 a\<close> is at least \<open>-2\<close>: it never overflows to
  minus infinity.\<close>

lemma ln_2_ge_half: "1 / 2 \<le> ln (2::real)"
proof -
  have h: "exp (1 / 2 :: real) \<le> 2" using exp_bound_half[of "1 / 2 :: real"] by simp
  have "1 / 2 \<le> ln (2::real) \<longleftrightarrow> exp (1 / 2) \<le> (2::real)" by (rule ln_ge_iff) simp
  with h show ?thesis by blast
qed

lemma x_ln_x_lower: "0 < a \<Longrightarrow> - 1 \<le> a * ln (a::real)"
proof (cases "1 \<le> a")
  case True
  assume "0 < a"
  with True have "0 \<le> a * ln a" by simp
  then show ?thesis by simp
next
  case False
  assume a: "0 < a"
  have "ln (1 / a) \<le> 1 / a - 1" using a by (intro ln_le_minus_one) simp
  then have "- ln a \<le> 1 / a - 1" using a by (simp add: ln_div)
  then have "a * (- ln a) \<le> a * (1 / a - 1)" using a by (intro mult_left_mono) simp_all
  also have "\<dots> = 1 - a" using a by (simp add: algebra_simps)
  finally show ?thesis using a by simp
qed

lemma x_log2_x_lower: "0 < a \<Longrightarrow> - 2 \<le> a * log 2 (a::real)"
proof (cases "1 \<le> a")
  case True
  assume "0 < a"
  with True have "0 \<le> a * log 2 a" by simp
  then show ?thesis by simp
next
  case False
  assume a: "0 < a"
  from False a have neg: "a * ln a \<le> 0" by (simp add: mult_nonneg_nonpos)
  have l: "0 < ln (2::real)" by simp
  have "a * log 2 a = (a * ln a) / ln 2" by (simp add: log_def)
  also have "\<dots> \<ge> (a * ln a) / (1 / 2)"
    using neg ln_2_ge_half l by (intro divide_left_mono_neg) simp_all
  finally have "2 * (a * ln a) \<le> a * log 2 a" by simp
  with x_ln_x_lower[OF a] show ?thesis by simp
qed

lemma func_entropy_kernel_range:
  "func_entropy_kernel x \<noteq> NaN \<and> func_entropy_kernel x \<noteq> NInf"
proof (cases x)
  case (Fin a)
  show ?thesis
  proof (cases "0 < a")
    case True
    have "- flt_overflow < a * log 2 a"
      using x_log2_x_lower[OF True] by (simp add: flt_overflow_def)
    then show ?thesis
      using True Fin by (auto simp: func_entropy_kernel_def Let_def fne_def fmul_def)
  next
    case False
    then show ?thesis
      using Fin by (auto simp: func_entropy_kernel_def Let_def fne_def fmul_def)
  qed
qed (auto simp: func_entropy_kernel_def Let_def fne_def fmul_def)

lemma entropy_terms_nth:
  "k < length pij \<Longrightarrow> entropy_terms pij N ! k =
     (if k < N * N \<and> k mod N = k div N then Fin 0 else func_entropy_kernel (pij ! k))"
  by (simp add: entropy_terms_def zero_diagonal_def)

text \<open>C7. An entropy term \<open>x * log2 x\<close> that is NaN is replaced by 0 (and any other is
  kept); no entry of the matrix of entropy terms that \<^verbatim>\<open>thrust_search_perplexity\<close> sums is
  NaN, and for an \<open>N \<times> N\<close> matrix no negated entropy sum is NaN.\<close>

theorem entropy_nan_guarded:
  "(fmul x (flog2 x) = NaN \<longrightarrow> func_entropy_kernel x = Fin 0) \<and>
   (fmul x (flog2 x) \<noteq> NaN \<longrightarrow> func_entropy_kernel x = fmul x (flog2 x)) \<and>
   (\<forall>k < length pij. entropy_terms pij N ! k \<noteq> NaN) \<and>
   (length pij = N * N \<longrightarrow> (\<forall>i < N. neg_entropy pij N ! i \<noteq> NaN))"
proof (intro conjI allI impI)
  assume "fmul x (flog2 x) = NaN"
  then show "func_entropy_kernel x = Fin 0"
    by (simp add: func_entropy_kernel_def fne_def)
next
  assume "fmul x (flog2 x) \<noteq> NaN"
  then show "func_entropy_kernel x = fmul x (flog2 x)"
    by (cases "fmul x (flog2 x)") (simp_all add: func_entropy_kernel_def fne_def)
next
  fix k assume "k < length pij"
  then show "entropy_terms pij N ! k \<noteq> NaN"
    using func_entropy_kernel_range[of "pij ! k"] by (simp add: entropy_terms_nth)
next
  fix i assume len: "length pij = N * N" and i: "i < N"
  let ?row = "map (\<lambda>j. entry (entropy_terms pij N) N i j) [0..<N]"
  have "\<forall>x\<in>set ?row. x \<noteq> NaN \<and> x \<noteq> NInf"
  proof
    fix x assume "x \<in> set ?row"
    then obtain j where j: "j < N" and x: "x = entropy_terms pij N ! (i + j * N)"
      by (auto simp: entry_def)
    have "i + j * N < length pij" using idx_lt[OF i j] len by simp
    then show "x \<noteq> NaN \<and> x \<noteq> NInf"
      using func_entropy_kernel_range[of "pij ! (i + j * N)"] x
      by (simp add: entropy_terms_nth)
  qed
  then have "foldl add_exact (Fin 0) ?row \<noteq> NaN \<and> foldl add_exact (Fin 0) ?row \<noteq> NInf"
    by (intro foldl_add_exact_no_nan) simp_all
  then have "fsum ?row \<noteq> NaN"
    by (simp add: fsum_def)
  then have "fmul (Fin (- 1)) (fsum ?row) \<noteq> NaN"
    by (cases "fsum ?row") (simp_all add: fmul_def)
  then show "neg_entropy pij N ! i \<noteq> NaN"
    using i by (simp add: neg_entropy_def reduce_alpha_def)
qed

theorem entropy_nan_guarded_witness:
  "fmul (Fin 0) (flog2 (Fin 0)) = NaN \<and> func_entropy_kernel (Fin 0) = Fin 0 \<and>
   fmul (Fin 2) (flog2 (Fin 2)) \<noteq> NaN \<and> func_entropy_kernel (Fin 2) = Fin 2 \<and>
   length [Fin 0, Fin 1, Fin 1, Fin 0] = 2 * 2 \<and>
   entropy_terms [Fin 0, Fin 1, Fin 1, Fin 0] 2 ! 0 \<noteq> NaN \<and>
   neg_entropy [Fin 0, Fin 1, Fin 1, Fin 0] 2 ! 0 \<noteq> NaN"
  using entropy_nan_guarded[of "Fin 0" "[Fin 0, Fin 1, Fin 1, Fin 0]" 2]
        entropy_nan_guarded[of "Fin 2" "[Fin 0, Fin 1, Fin 1, Fin 0]" 2]
  by (simp add: fmul_def flt_overflow_def)

subsection \<open>The loop and the input points\<close>

lemma tsne_loop_funpow:
  "i \<le> 5000 \<Longrightarrow>
   tsne_loop pij N P eta mw i st = ((tsne_step pij N P eta mw) ^^ nat (5000 - i)) st"
proof (induction pij N P eta mw i st rule: tsne_loop.induct)
  case (1 pij N PROJDIM eta momentum_weight i st)
  show ?case
  proof (cases "i < 5000")
    case True
    then have n: "nat (5000 - i) = Suc (nat (5000 - (i + 1)))" by simp
    show ?thesis
      using True "1.IH"[OF True]
      by (subst tsne_loop.simps) (simp only: n funpow_Suc_right o_apply, simp)
  next
    case False
    with "1.prems" have "i = 5000" by simp
    then show ?thesis by (subst tsne_loop.simps) simp
  qed
qed

lemma tsne_points: "fst (tsne points N NDIMS PROJDIM rs ry) = max_norm points"
  by (simp add: tsne_def Let_def)

text \<open>C8. The loop entered at \<open>i = 0\<close> is the body applied exactly 5000 times, whatever the
  state (the loss included) becomes on the way, and the embedding \<^verbatim>\<open>tsne\<close> returns is the one
  after these 5000 steps.\<close>

theorem tsne_loop_runs_5000_steps:
  "tsne_loop pij N PROJDIM eta momentum_weight 0 st =
     ((tsne_step pij N PROJDIM eta momentum_weight) ^^ 5000) st \<and>
   snd (tsne points N NDIMS PROJDIM rand_sigmas rand_ys) =
     st_ys (((tsne_step (compute_pij (max_norm points) rand_sigmas N NDIMS) N PROJDIM
                 (Fin 1) (Fin (13421773 / 16777216))) ^^ 5000)
       \<lparr>st_ys = rand_ys,
        st_yt_1 = replicate (N * PROJDIM) (Fin 0),
        st_momentum = replicate (N * PROJDIM) (Fin 0),
        st_bufs = \<lparr>b_forces = replicate (N * PROJDIM) (Fin 0),
                   b_dist = replicate (N * N) (Fin 0),
                   b_qij = replicate (N * N) (Fin 0)\<rparr>,
        st_loss = Fin 0\<rparr>)"
  using tsne_loop_funpow[of 0] by (simp add: tsne_def Let_def)

text \<open>C2. The claim: on return of \<^verbatim>\<open>tsne\<close> the caller's points hold the values they held
  on entry. The first statement of \<^verbatim>\<open>tsne\<close> is \<^verbatim>\<open>Math::max_norm(points)\<close> on the caller's
  buffer: the points \<open>2, 4\<close> come back as \<open>1/2, 1\<close>.\<close>

theorem tsne_changes_points:
  "fst (tsne [Fin 2, Fin 4] 2 1 1 [Fin (1 / 4), Fin (1 / 4)] [Fin 0, Fin 1]) \<noteq> [Fin 2, Fin 4]"
  by (simp add: tsne_points max_norm_def fmax_def fdiv_def flt_overflow_def)

text \<open>C2, as the code has it: on return the caller's points hold the max-norm rescaling of
  the values on entry, every entry divided by the largest absolute value of the matrix.\<close>

theorem tsne_rescales_points:
  "fst (tsne points N NDIMS PROJDIM rand_sigmas rand_ys) =
     map (\<lambda>x. fdiv x (foldl fmax (Fin 0) (map fabs points))) points"
  by (simp add: tsne_points max_norm_def)

subsection \<open>The loss\<close>

lemma length_gradients_affinities:
  "length (b_qij (gradients_affinities b ys N P)) = N * N"
  "length (b_dist (gradients_affinities b ys N P)) = N * N"
  by (simp_all add: gradients_affinities_def Let_def zero_diagonal_def squared_pairwise_dist_def)

lemma gradients_loss_offdiag:
  assumes "length pij = N * N" and "length (b_qij b) = N * N"
  shows "gradients_loss b pij N =
     fsum (map (\<lambda>k. func_kl (pij ! k) (b_qij b ! k))
               (filter (\<lambda>k. k mod N \<noteq> k div N) [0..<N * N]))"
proof -
  have "zero_diagonal (map2 func_kl pij (b_qij b)) N =
        map (\<lambda>k. if k mod N = k div N then Fin 0 else func_kl (pij ! k) (b_qij b ! k))
            [0..<N * N]"
    using assms by (simp add: zero_diagonal_def)
  then show ?thesis
    by (simp add: gradients_loss_def Let_def fsum_def foldl_add_exact_skip)
qed

lemma snd_compute_gradients:
  "snd (compute_gradients b ys pij N P eta) =
     gradients_loss (gradients_affinities b ys N P) pij N"
  by (simp add: compute_gradients_def Let_def)

lemma fst_compute_gradients:
  "fst (compute_gradients b ys pij N P eta) =
     gradients_forces (gradients_coefficients (gradients_affinities b ys N P) pij) ys N P eta"
  by (simp add: compute_gradients_def Let_def)

lemma gradients_affinities_0_1:
  "gradients_affinities b [Fin 0, Fin 1] 2 1 =
   b\<lparr>b_dist := [Fin 0, Fin (1 / 2), Fin (1 / 2), Fin 0],
     b_qij := [Fin 0, Fin (1 / 2), Fin (1 / 2), Fin 0]\<rparr>"
  by (simp add: gradients_affinities_def upt_0_1 upt_0_2 upt_0_4 entry_def fsum_def
      zero_diagonal_def squared_pairwise_dist_def func_inc_inv_def fsub_def Let_def
      fadd_def fmul_def fdiv_def flt_overflow_def)

text \<open>C6. The loss \<^verbatim>\<open>compute_gradients\<close> returns is the sum, over the entries \<open>(i, j)\<close>
  with \<open>i \<noteq> j\<close> (flat index \<open>k\<close> with \<open>k mod N \<noteq> k div N\<close>), of the term of \<^verbatim>\<open>func_kl\<close> on
  \<open>pij\<close> and the normalised affinities \<open>qij\<close>; the term is 0 when \<open>pij[i,j] == 0\<close> and
  \<open>pij[i,j] * (log pij[i,j] - log qij[i,j])\<close> otherwise.\<close>

theorem loss_is_offdiagonal_kl_sum:
  "(length pij = N * N \<longrightarrow>
      snd (compute_gradients b ys pij N PROJDIM eta) =
      fsum (map (\<lambda>k. func_kl (pij ! k) (b_qij (gradients_affinities b ys N PROJDIM) ! k))
                (filter (\<lambda>k. k mod N \<noteq> k div N) [0..<N * N]))) \<and>
   (feq x (Fin 0) \<longrightarrow> func_kl x y = Fin 0) \<and>
   (\<not> feq x (Fin 0) \<longrightarrow> func_kl x y = fmul x (fsub (flog x) (flog y)))"
  by (simp add: snd_compute_gradients gradients_loss_offdiag length_gradients_affinities
      func_kl_def)

theorem loss_is_offdiagonal_kl_sum_witness:
  "length [Fin 0, Fin 1, Fin 1, Fin 0] = 2 * 2 \<and>
   \<not> feq (Fin 1) (Fin 0) \<and> feq (Fin 0) (Fin 0) \<and>
   snd (compute_gradients
          \<lparr>b_forces = [Fin 0, Fin 0], b_dist = [Fin 0, Fin 0, Fin 0, Fin 0],
           b_qij = [Fin 0, Fin 0, Fin 0, Fin 0]\<rparr>
          [Fin 0, Fin 1] [Fin 0, Fin 1, Fin 1, Fin 0] 2 1 (Fin 1))
     = Fin (2 * ln 2)"
  using loss_is_offdiagonal_kl_sum[of "[Fin 0, Fin 1, Fin 1, Fin 0]" 2
          "\<lparr>b_forces = [Fin 0, Fin 0], b_dist = [Fin 0, Fin 0, Fin 0, Fin 0],
            b_qij = [Fin 0, Fin 0, Fin 0, Fin 0]\<rparr>" "[Fin 0, Fin 1]" 1
          "Fin 1" "Fin 1" "Fin 0"]
        loss_is_offdiagonal_kl_sum[of "[Fin 0, Fin 1, Fin 1, Fin 0]" 2
          "\<lparr>b_forces = [Fin 0, Fin 0], b_dist = [Fin 0, Fin 0, Fin 0, Fin 0],
            b_qij = [Fin 0, Fin 0, Fin 0, Fin 0]\<rparr>" "[Fin 0, Fin 1]" 1
          "Fin 1" "Fin 0" "Fin 0"]
  unfolding gradients_affinities_0_1
  using ln_2_ge_half ln_le_minus_one[of "2::real"]
  by (auto simp: upt_0_4 func_kl_def fsum_def fsub_def ln_div fadd_def fmul_def
      flt_overflow_def)

subsection \<open>Entries of the matrices of the gradient computation\<close>

lemma entry_map_upt:
  "i < N \<Longrightarrow> j < M \<Longrightarrow> entry (map f [0..<N * M]) N i j = f (i + j * N)"
  using idx_lt[of i N j M] by (simp add: entry_def)

lemma sqdist_entry:
  assumes "i < N" and "j < N"
  shows "entry (squared_pairwise_dist pts N D) N i j =
     fsum (map (\<lambda>k. fmul (fsub (entry pts N i k) (entry pts N j k))
                         (fsub (entry pts N i k) (entry pts N j k))) [0..<D])"
  using assms by (simp add: squared_pairwise_dist_def entry_map_upt Let_def)

lemma fneg_add_exact: "add_exact b (fneg a) = fneg (add_exact a (fneg b))"
  by (cases a; cases b) simp_all

lemma to_range_fneg: "to_range (fneg x) = fneg (to_range x)"
  using flt_overflow_pos by (cases x) auto

lemma mul_exact_fneg_fneg: "mul_exact (fneg x) (fneg x) = mul_exact x x"
  by (cases x) simp_all

lemma fsub_swap: "fsub b a = fneg (fsub a b)"
  unfolding fsub_def fadd_def fneg_add_exact[of b a] to_range_fneg ..

lemma fsq_sym: "fmul (fsub a b) (fsub a b) = fmul (fsub b a) (fsub b a)"
  unfolding fsub_swap[of b a] fmul_def mul_exact_fneg_fneg ..

lemma sqdist_sym:
  "i < N \<Longrightarrow> j < N \<Longrightarrow>
   entry (squared_pairwise_dist pts N D) N i j = entry (squared_pairwise_dist pts N D) N j i"
  by (simp add: sqdist_entry fsq_sym[of "entry pts N i _"])

lemma dist_entry:
  assumes "i < N" and "j < N"
  shows "entry (b_dist (gradients_affinities b ys N P)) N i j =
     (if i = j then Fin 0 else func_inc_inv (entry (squared_pairwise_dist ys N P) N i j))"
proof -
  have l: "length (squared_pairwise_dist ys N P) = N * N"
    by (simp add: squared_pairwise_dist_def)
  show ?thesis
    using assms idx_lt[OF assms] l
    by (simp add: entry_def gradients_affinities_def Let_def zero_diagonal_def)
qed

lemma qij_nth:
  "k < N * N \<Longrightarrow> b_qij (gradients_affinities b ys N P) ! k =
     fdiv (b_dist (gradients_affinities b ys N P) ! k) (fsum (b_dist (gradients_affinities b ys N P)))"
  by (simp add: gradients_affinities_def Let_def zero_diagonal_def squared_pairwise_dist_def)

lemma coefficients_nth:
  assumes "k < length pij" and "k < length (b_qij a)" and "k < length (b_dist a)"
  shows "b_qij (gradients_coefficients a pij) ! k =
           fmul (fsub (pij ! k) (b_qij a ! k)) (b_dist a ! k)"
  using assms by (simp add: gradients_coefficients_def Let_def)

lemma coefficients_frame:
  "b_dist (gradients_coefficients a pij) = b_dist a"
  "b_forces (gradients_coefficients a pij) = b_forces a"
  by (simp_all add: gradients_coefficients_def Let_def)

lemma coefficients_length:
  "length (b_qij (gradients_coefficients a pij)) =
     min (min (length pij) (length (b_qij a))) (length (b_dist a))"
  by (simp add: gradients_coefficients_def Let_def)

lemma forces_frame:
  "b_dist (gradients_forces a ys N P eta) = b_dist a"
  "b_qij (gradients_forces a ys N P eta) = b_qij a"
  by (simp_all add: gradients_forces_def Let_def)

subsection \<open>The buffers on return\<close>

text \<open>C10. On return of \<^verbatim>\<open>compute_gradients\<close> the \<^verbatim>\<open>dist\<close> buffer holds the kernel values
  \<open>1 / (1 + d\<^sup>2)\<close> with zero diagonal, and the \<^verbatim>\<open>qij\<close> buffer holds, entry by entry, the
  difference of \<open>pij\<close> and the normalised affinity (the kernel value divided by the sum of
  all kernel values) times the kernel value: the normalised affinities themselves are gone.
  In the sample run the normalised affinity of the two points is \<open>1/2\<close>, and the buffer
  holds \<open>1/4\<close>.\<close>

theorem buffers_after_compute_gradients:
  assumes "length pij = N * N" and "i < N" and "j < N"
  shows "entry (b_dist (fst (compute_gradients b ys pij N PROJDIM eta))) N i j =
           (if i = j then Fin 0
            else fdiv (Fin 1) (fadd (entry (squared_pairwise_dist ys N PROJDIM) N i j) (Fin 1)))
       \<and> entry (b_qij (fst (compute_gradients b ys pij N PROJDIM eta))) N i j =
           fmul (fsub (entry pij N i j) (entry (b_qij (gradients_affinities b ys N PROJDIM)) N i j))
                (entry (b_dist (fst (compute_gradients b ys pij N PROJDIM eta))) N i j)
       \<and> entry (b_qij (gradients_affinities b ys N PROJDIM)) N i j =
           fdiv (entry (b_dist (fst (compute_gradients b ys pij N PROJDIM eta))) N i j)
                (fsum (b_dist (fst (compute_gradients b ys pij N PROJDIM eta))))
       \<and> length (b_dist (fst (compute_gradients b ys pij N PROJDIM eta))) = N * N
       \<and> length (b_qij (fst (compute_gradients b ys pij N PROJDIM eta))) = N * N"
proof -
  let ?a = "gradients_affinities b ys N PROJDIM"
  have d: "b_dist (fst (compute_gradients b ys pij N PROJDIM eta)) = b_dist ?a"
    by (simp add: fst_compute_gradients forces_frame coefficients_frame)
  have q: "b_qij (fst (compute_gradients b ys pij N PROJDIM eta)) = b_qij (gradients_coefficients ?a pij)"
    by (simp add: fst_compute_gradients forces_frame)
  have k: "i + j * N < N * N" by (rule idx_lt[OF assms(2,3)])
  have 1: "entry (b_dist ?a) N i j = (if i = j then Fin 0
            else fdiv (Fin 1) (fadd (entry (squared_pairwise_dist ys N PROJDIM) N i j) (Fin 1)))"
    using dist_entry[OF assms(2,3)] by (simp add: func_inc_inv_def)
  have 2: "entry (b_qij (gradients_coefficients ?a pij)) N i j =
     fmul (fsub (entry pij N i j) (entry (b_qij ?a) N i j)) (entry (b_dist ?a) N i j)"
    unfolding entry_def using k assms(1)
    by (intro coefficients_nth) (simp_all add: length_gradients_affinities)
  have 3: "entry (b_qij ?a) N i j = fdiv (entry (b_dist ?a) N i j) (fsum (b_dist ?a))"
    unfolding entry_def using k by (rule qij_nth)
  show ?thesis
    unfolding d q using 1 2 3 assms(1)
    by (simp add: length_gradients_affinities coefficients_length)
qed

subsection \<open>A sample run: two points on a line\<close>

lemma coefficients_sample:
  "gradients_coefficients
     (b\<lparr>b_dist := [Fin 0, Fin (1 / 2), Fin (1 / 2), Fin 0],
        b_qij := [Fin 0, Fin (1 / 2), Fin (1 / 2), Fin 0]\<rparr>) [Fin 0, Fin 1, Fin 1, Fin 0]
   = b\<lparr>b_dist := [Fin 0, Fin (1 / 2), Fin (1 / 2), Fin 0],
       b_qij := [Fin 0, Fin (1 / 4), Fin (1 / 4), Fin 0]\<rparr>"
  by (simp add: gradients_coefficients_def fsub_def Let_def fadd_def fmul_def flt_overflow_def)

lemma forces_sample:
  "gradients_forces (b\<lparr>b_dist := d, b_qij := [Fin 0, Fin (1 / 4), Fin (1 / 4), Fin 0]\<rparr>)
      [Fin 0, Fin 1] 2 1 (Fin 1)
   = b\<lparr>b_forces := [Fin 1, Fin (- 1)], b_dist := d,
       b_qij := [Fin 0, Fin (1 / 4), Fin (1 / 4), Fin 0]\<rparr>"
  by (simp add: gradients_forces_def cublasSgemm_N_N_def upt_0_1 upt_0_2 entry_def fsum_def Let_def
      fadd_def fmul_def flt_overflow_def)

lemma compute_gradients_sample:
  "fst (compute_gradients
          \<lparr>b_forces = [Fin 0, Fin 0], b_dist = [Fin 0, Fin 0, Fin 0, Fin 0],
           b_qij = [Fin 0, Fin 0, Fin 0, Fin 0]\<rparr>
          [Fin 0, Fin 1] [Fin 0, Fin 1, Fin 1, Fin 0] 2 1 (Fin 1))
   = \<lparr>b_forces = [Fin 1, Fin (- 1)], b_dist = [Fin 0, Fin (1 / 2), Fin (1 / 2), Fin 0],
      b_qij = [Fin 0, Fin (1 / 4), Fin (1 / 4), Fin 0]\<rparr>"
  unfolding fst_compute_gradients gradients_affinities_0_1 coefficients_sample forces_sample
  by simp

lemma forces_spec_sample:
  "forces_spec [Fin 0, Fin (1 / 4), Fin (1 / 4), Fin 0] [Fin 0, Fin 1] 2 1 (Fin 1)
   = [Fin (- 1), Fin 1]"
  by (simp add: forces_spec_def upt_0_1 upt_0_2 entry_def fsum_def fsub_def
      fadd_def fmul_def flt_overflow_def)

theorem buffers_after_compute_gradients_witness:
  "length [Fin 0, Fin 1, Fin 1, Fin 0] = 2 * 2 \<and> (0::nat) < 2 \<and> (1::nat) < 2 \<and>
   entry (b_qij (fst (compute_gradients
          \<lparr>b_forces = [Fin 0, Fin 0], b_dist = [Fin 0, Fin 0, Fin 0, Fin 0],
           b_qij = [Fin 0, Fin 0, Fin 0, Fin 0]\<rparr>
          [Fin 0, Fin 1] [Fin 0, Fin 1, Fin 1, Fin 0] 2 1 (Fin 1)))) 2 0 1 = Fin (1 / 4) \<and>
   entry (b_qij (gradients_affinities
          \<lparr>b_forces = [Fin 0, Fin 0], b_dist = [Fin 0, Fin 0, Fin 0, Fin 0],
           b_qij = [Fin 0, Fin 0, Fin 0, Fin 0]\<rparr> [Fin 0, Fin 1] 2 1)) 2 0 1 = Fin (1 / 2) \<and>
   entry (b_dist (fst (compute_gradients
          \<lparr>b_forces = [Fin 0, Fin 0], b_dist = [Fin 0, Fin 0, Fin 0, Fin 0],
           b_qij = [Fin 0, Fin 0, Fin 0, Fin 0]\<rparr>
          [Fin 0, Fin 1] [Fin 0, Fin 1, Fin 1, Fin 0] 2 1 (Fin 1)))) 2 0 1 = Fin (1 / 2) \<and>
   entry (squared_pairwise_dist [Fin 0, Fin 1] 2 1) 2 0 1 = Fin 1"
  using buffers_after_compute_gradients[of "[Fin 0, Fin 1, Fin 1, Fin 0]" 2 0 1
          "\<lparr>b_forces = [Fin 0, Fin 0], b_dist = [Fin 0, Fin 0, Fin 0, Fin 0],
           b_qij = [Fin 0, Fin 0, Fin 0, Fin 0]\<rparr>" "[Fin 0, Fin 1]" 1 "Fin 1"]
  unfolding compute_gradients_sample gradients_affinities_0_1
  by (simp add: entry_def squared_pairwise_dist_def upt_0_1 upt_0_4 fsum_def fsub_def
      fadd_def fmul_def flt_overflow_def)

subsection \<open>The forces\<close>

text \<open>The entries of the force matrix, as the two calls of \<^verbatim>\<open>cublasSgemm\<close> and the
  elementwise product between them compute it: \<open>4\<eta>\<close> times the entry of \<open>C \<cdot> Y\<close>, plus
  \<open>-4\<eta>\<close> times the entry of \<open>Y \<odot> (C \<cdot> 1)\<close>, where \<open>C\<close> is the \<^verbatim>\<open>qij\<close> buffer.\<close>

lemma forces_entry:
  assumes "length ys = N * PROJDIM" and "idx < N * PROJDIM"
  shows "b_forces (gradients_forces a ys N PROJDIM eta) ! idx =
     (let CY = fsum (map (\<lambda>l. fmul (entry (b_qij a) N (idx mod N) l) (entry ys N l (idx div N)))
                        [0..<N]);
          C1 = fsum (map (\<lambda>l. fmul (entry (b_qij a) N (idx mod N) l) (Fin 1)) [0..<N]);
          YC1 = fmul (fmul (Fin 1) C1) (ys ! idx)
      in if fmul (Fin (- 4)) eta = Fin 0 then fmul (fmul (Fin 4) eta) CY
         else fadd (fmul (fmul (Fin 4) eta) CY) (fmul (fmul (Fin (- 4)) eta) YC1))"
proof -
  have d: "idx div N < PROJDIM"
    using assms(2) by (simp add: less_mult_imp_div_less mult.commute)
  have e: "entry (replicate (PROJDIM * N) (Fin 1)) N l (idx div N) = Fin 1" if "l < N" for l
    using idx_lt[OF that d] by (simp add: entry_def mult.commute)
  have m: "map (\<lambda>l. fmul (entry (b_qij a) N (idx mod N) l)
                        (entry (replicate (PROJDIM * N) (Fin 1)) N l (idx div N))) [0..<N]
         = map (\<lambda>l. fmul (entry (b_qij a) N (idx mod N) l) (Fin 1)) [0..<N]"
    by (intro map_ext) (simp add: e)
  show ?thesis
    using assms
    by (simp add: gradients_forces_def cublasSgemm_N_N_def Let_def m del: replicate.simps)
qed

text \<open>C1. The claim: the force matrix is \<open>4\<eta> \<cdot> (Y \<odot> (C \<cdot> 1) - C \<cdot> Y)\<close> with
  \<open>C = (Pij - Qij) \<odot> dist\<close>; the comment above the second \<^verbatim>\<open>cublasSgemm\<close> (line 266) and
  the comment block above the function state the same sign. The call has \<open>alpha = 4\<eta>\<close> on
  the product \<open>C \<cdot> Y\<close> and \<open>beta = -4\<eta>\<close> on the buffer that holds \<open>Y \<odot> (C \<cdot> 1)\<close>, so it
  stores \<open>4\<eta> \<cdot> (C \<cdot> Y - Y \<odot> (C \<cdot> 1))\<close>. For the two points \<open>0\<close> and \<open>1\<close> on a line,
  \<open>pij = 1\<close> off the diagonal and \<open>\<eta> = 1\<close>: the kernel matrix is \<open>1/2\<close> off the diagonal, so
  is \<open>Qij\<close>, the \<^verbatim>\<open>qij\<close> buffer holds \<open>C = (Pij - Qij) \<odot> dist\<close>, which is \<open>1/4\<close> off the
  diagonal, the code returns the forces \<open>1, -1\<close>, and the formula of the claim and of the
  comments gives \<open>-1, 1\<close> on this \<open>C\<close>.\<close>

theorem forces_sign_opposite_to_comment:
  "b_dist (gradients_affinities
          \<lparr>b_forces = [Fin 0, Fin 0], b_dist = [Fin 0, Fin 0, Fin 0, Fin 0],
           b_qij = [Fin 0, Fin 0, Fin 0, Fin 0]\<rparr> [Fin 0, Fin 1] 2 1)
     = [Fin 0, Fin (1 / 2), Fin (1 / 2), Fin 0] \<and>
   b_qij (gradients_affinities
          \<lparr>b_forces = [Fin 0, Fin 0], b_dist = [Fin 0, Fin 0, Fin 0, Fin 0],
           b_qij = [Fin 0, Fin 0, Fin 0, Fin 0]\<rparr> [Fin 0, Fin 1] 2 1)
     = [Fin 0, Fin (1 / 2), Fin (1 / 2), Fin 0] \<and>
   map2 fmul (map2 fsub [Fin 0, Fin 1, Fin 1, Fin 0] [Fin 0, Fin (1 / 2), Fin (1 / 2), Fin 0])
             [Fin 0, Fin (1 / 2), Fin (1 / 2), Fin 0]
     = [Fin 0, Fin (1 / 4), Fin (1 / 4), Fin 0] \<and>
   b_qij (fst (compute_gradients
          \<lparr>b_forces = [Fin 0, Fin 0], b_dist = [Fin 0, Fin 0, Fin 0, Fin 0],
           b_qij = [Fin 0, Fin 0, Fin 0, Fin 0]\<rparr>
          [Fin 0, Fin 1] [Fin 0, Fin 1, Fin 1, Fin 0] 2 1 (Fin 1)))
     = [Fin 0, Fin (1 / 4), Fin (1 / 4), Fin 0] \<and>
   b_forces (fst (compute_gradients
          \<lparr>b_forces = [Fin 0, Fin 0], b_dist = [Fin 0, Fin 0, Fin 0, Fin 0],
           b_qij = [Fin 0, Fin 0, Fin 0, Fin 0]\<rparr>
          [Fin 0, Fin 1] [Fin 0, Fin 1, Fin 1, Fin 0] 2 1 (Fin 1)))
     = [Fin 1, Fin (- 1)] \<and>
   forces_spec [Fin 0, Fin (1 / 4), Fin (1 / 4), Fin 0] [Fin 0, Fin 1] 2 1 (Fin 1)
     = [Fin (- 1), Fin 1]"
  unfolding compute_gradients_sample gradients_affinities_0_1
  by (simp add: forces_spec_sample[unfolded One_nat_def] fsub_def fadd_def fmul_def
      flt_overflow_def)

subsection \<open>The exponential at the edge of the range\<close>

lemma exp_1_ge: "5 \<le> 2 * exp (1::real)"
  using exp_lower_Taylor_quadratic[of "1::real"] by simp

lemma exp_m128_underflow: "exp (- 128 :: real) \<le> 1 / 2 ^ 150"
proof -
  have "(2::real) ^ 128 * 2 ^ 150 \<le> 5 ^ 128" by simp
  also have "\<dots> \<le> (2 * exp (1::real)) ^ 128" by (rule power_mono[OF exp_1_ge]) simp
  also have "\<dots> = 2 ^ 128 * exp (128 :: real)"
    using exp_of_nat_mult[of 128 "1::real"] by (simp add: power_mult_distrib)
  finally have "(2::real) ^ 150 \<le> exp 128" by simp
  then have "1 / exp (128::real) \<le> 1 / 2 ^ 150"
    by (intro divide_left_mono) simp_all
  then show ?thesis by (simp add: exp_minus inverse_eq_divide)
qed

lemma fexp_m128: "fexp (Fin (- 128)) = Fin 0"
  using exp_m128_underflow by simp

lemma exp_m2_lower: "1 / 2 ^ 150 < exp (- 2 :: real)"
proof -
  have "exp (2::real) = exp 1 ^ 2" using exp_of_nat_mult[of 2 "1::real"] by simp
  also have "\<dots> \<le> 3 ^ 2" by (rule power_mono[OF exp_le]) simp
  also have "\<dots> < (2::real) ^ 150" by simp
  finally have "exp (2::real) < 2 ^ 150" .
  then have "1 / 2 ^ 150 < 1 / exp (2::real)"
    by (intro divide_strict_left_mono) simp_all
  then show ?thesis by (simp add: exp_minus inverse_eq_divide)
qed

lemma exp_m2_upper: "exp (- 2 :: real) < 2"
proof -
  have "exp (- 2 :: real) \<le> 1" by simp
  then show ?thesis by linarith
qed

lemma fexp_m2: "fexp (Fin (- 2)) = Fin (exp (- 2))"
  using exp_m2_lower exp_m2_upper by (simp add: flt_overflow_def)

lemma to_range_exp_m2: "to_range (Fin (exp (- 2))) = Fin (exp (- 2))"
  using exp_m2_lower exp_m2_upper by (simp add: flt_overflow_def)

subsection \<open>Symmetry and diagonal\<close>

lemma geam_entry:
  "i < N \<Longrightarrow> j < N \<Longrightarrow>
   entry (cublasSgeam_N_T N N alpha A beta B) N i j =
     fadd (fmul alpha (entry A N i j)) (fmul beta (entry B N j i))"
  using idx_lt[of i N j N] by (simp add: entry_def cublasSgeam_N_T_def)

lemma compute_pij_entry:
  "i < N \<Longrightarrow> j < N \<Longrightarrow>
   entry (compute_pij points sigma N NDIMS) N i j =
     fadd (fmul (Fin (1 / 2)) (entry (pij_vals points sigma N NDIMS) N i j))
          (fmul (Fin (1 / 2)) (entry (pij_vals points sigma N NDIMS) N j i))"
  by (simp add: compute_pij_def Let_def geam_entry)

lemma reduce_sum_nth:
  "i < N \<Longrightarrow> reduce_sum m N M 1 ! i = fsum (map (\<lambda>j. entry m N i j) [0..<M])"
  by (simp add: reduce_sum_def reduce_alpha_def fmul_one_left fsum_def)

lemma to_range_fsum: "to_range (fsum xs) = fsum xs"
  by (simp add: fsum_def)

lemma length_pij_kernel: "length (pij_kernel points sigma N NDIMS) = N * N"
  by (simp add: pij_kernel_def Let_def zero_diagonal_def broadcast_matrix_vector_def)

lemma pij_kernel_entry:
  assumes "i < N" and "j < N"
  shows "entry (pij_kernel points sigma N NDIMS) N i j =
     (if i = j then Fin 0
      else func_exp (fdiv (entry (squared_pairwise_dist points N NDIMS) N i j)
                          (fmul (Fin (- 2)) (math_square sigma ! i))))"
  using assms idx_lt[OF assms]
  by (simp add: entry_def pij_kernel_def Let_def zero_diagonal_def broadcast_matrix_vector_def)

lemma pij_vals_entry:
  assumes "i < N" and "j < N"
  shows "entry (pij_vals points sigma N NDIMS) N i j =
     fdiv (entry (pij_kernel points sigma N NDIMS) N i j)
          (reduce_sum (pij_kernel points sigma N NDIMS) N N 1 ! i)"
proof -
  have "fmul (Fin 1) (reduce_sum (pij_kernel points sigma N NDIMS) N N 1 ! i)
      = reduce_sum (pij_kernel points sigma N NDIMS) N N 1 ! i"
    unfolding reduce_sum_nth[OF assms(1)] fmul_one_left to_range_fsum ..
  then show ?thesis
    using assms idx_lt[OF assms]
    by (simp add: entry_def pij_vals_def Let_def broadcast_matrix_vector_def)
qed

lemma upt_0_9: "[0..<9] = [0, 1, 2, 3, 4, 5, 6, 7, 8::nat]" by code_simp

lemma fexp_0: "fexp (Fin 0) = Fin 1"
  by (simp add: flt_overflow_def)

lemma pij_kernel_underflow:
  "pij_kernel [Fin 1, Fin (- 1), Fin 1, Fin (- 1), Fin 1, Fin (- 1), Fin 1, Fin (- 1), Fin 1,
               Fin (- 1), Fin 1, Fin (- 1), Fin 1, Fin (- 1), Fin 1, Fin (- 1), Fin 1, Fin (- 1)]
              [Fin (3 / 8), Fin (3 / 8)] 2 9
   = [Fin 0, Fin 0, Fin 0, Fin 0]"
  by (simp add: pij_kernel_def squared_pairwise_dist_def math_square_def
      broadcast_matrix_vector_def func_exp_def zero_diagonal_def upt_0_9 upt_0_4 entry_def
      fsum_def fsub_def Let_def fadd_def fmul_def fdiv_def flt_overflow_def fexp_m128 fexp_0
      del: fexp.simps)

lemma compute_pij_underflow:
  "compute_pij [Fin 1, Fin (- 1), Fin 1, Fin (- 1), Fin 1, Fin (- 1), Fin 1, Fin (- 1), Fin 1,
               Fin (- 1), Fin 1, Fin (- 1), Fin 1, Fin (- 1), Fin 1, Fin (- 1), Fin 1, Fin (- 1)]
              [Fin (3 / 8), Fin (3 / 8)] 2 9
   = [NaN, NaN, NaN, NaN]"
  unfolding compute_pij_def pij_vals_def Let_def pij_kernel_underflow
  by (simp add: reduce_sum_def reduce_alpha_def broadcast_matrix_vector_def cublasSgeam_N_T_def
      upt_0_2 upt_0_4 entry_def fsum_def fadd_def fmul_def fdiv_def flt_overflow_def)

lemma gradients_affinities_overflow:
  "gradients_affinities b [Fin 0, Fin (2 ^ 64)] 2 1 =
   b\<lparr>b_dist := [Fin 0, Fin 0, Fin 0, Fin 0], b_qij := [NaN, NaN, NaN, NaN]\<rparr>"
  by (simp add: gradients_affinities_def upt_0_1 upt_0_2 upt_0_4 entry_def fsum_def
      zero_diagonal_def squared_pairwise_dist_def func_inc_inv_def fsub_def Let_def
      fadd_def fmul_def fdiv_def flt_overflow_def)

text \<open>C4. The claim: for valid inputs \<open>Pij\<close> and \<open>Qij\<close> are symmetric under \<^verbatim>\<open>==\<close> and
  have the diagonal exactly 0. Two points in nine dimensions, the first with all
  coordinates \<open>1\<close> and the second with all coordinates \<open>-1\<close>, and the bandwidths \<open>3/8\<close>:
  the squared distance is 36, the scaled distance \<open>36 / (-2 \<cdot> 9/64) = -128\<close>, and the
  float \<open>exp(-128)\<close> is 0. So every kernel value is 0, both column sums are 0, the
  normalisation computes \<open>0 / 0\<close> and \<open>Pij\<close> is NaN in every entry: the diagonal is not 0
  and no entry compares equal to another. With the embedding \<open>0, 2\<^sup>6\<^sup>4\<close> the squared
  distance overflows, every kernel value \<open>1 / (1 + d\<^sup>2)\<close> is 0, their sum is 0 and \<open>Qij\<close>
  is NaN in every entry.\<close>

theorem pij_qij_nan_on_underflow:
  "compute_pij [Fin 1, Fin (- 1), Fin 1, Fin (- 1), Fin 1, Fin (- 1), Fin 1, Fin (- 1), Fin 1,
               Fin (- 1), Fin 1, Fin (- 1), Fin 1, Fin (- 1), Fin 1, Fin (- 1), Fin 1, Fin (- 1)]
              [Fin (3 / 8), Fin (3 / 8)] 2 9
     = [NaN, NaN, NaN, NaN] \<and>
   entry (compute_pij [Fin 1, Fin (- 1), Fin 1, Fin (- 1), Fin 1, Fin (- 1), Fin 1, Fin (- 1),
               Fin 1, Fin (- 1), Fin 1, Fin (- 1), Fin 1, Fin (- 1), Fin 1, Fin (- 1), Fin 1,
               Fin (- 1)]
              [Fin (3 / 8), Fin (3 / 8)] 2 9) 2 0 0 \<noteq> Fin 0 \<and>
   \<not> feq (entry (compute_pij [Fin 1, Fin (- 1), Fin 1, Fin (- 1), Fin 1, Fin (- 1), Fin 1,
               Fin (- 1), Fin 1, Fin (- 1), Fin 1, Fin (- 1), Fin 1, Fin (- 1), Fin 1, Fin (- 1),
               Fin 1, Fin (- 1)]
              [Fin (3 / 8), Fin (3 / 8)] 2 9) 2 0 1)
          (entry (compute_pij [Fin 1, Fin (- 1), Fin 1, Fin (- 1), Fin 1, Fin (- 1), Fin 1,
               Fin (- 1), Fin 1, Fin (- 1), Fin 1, Fin (- 1), Fin 1, Fin (- 1), Fin 1, Fin (- 1),
               Fin 1, Fin (- 1)]
              [Fin (3 / 8), Fin (3 / 8)] 2 9) 2 1 0) \<and>
   b_qij (gradients_affinities
          \<lparr>b_forces = [Fin 0, Fin 0], b_dist = [Fin 0, Fin 0, Fin 0, Fin 0],
           b_qij = [Fin 0, Fin 0, Fin 0, Fin 0]\<rparr> [Fin 0, Fin (2 ^ 64)] 2 1)
     = [NaN, NaN, NaN, NaN]"
  unfolding compute_pij_underflow gradients_affinities_overflow
  by (simp add: entry_def)

text \<open>C4, as the code has it: \<open>Pij\<close> and \<open>Qij\<close> hold the same value at \<open>(i, j)\<close> and at
  \<open>(j, i)\<close>, and \<^verbatim>\<open>==\<close> holds of the two exactly when that value is not NaN. A diagonal
  entry of \<open>Pij\<close> is 0 when the sum of the kernel values of its point (the divisor of the
  normalisation) is neither 0 nor NaN, and NaN when it is; a diagonal entry of \<open>Qij\<close> is 0
  when the sum of all kernel values is neither 0 nor NaN, and NaN when it is.\<close>

theorem pij_qij_symmetric_diagonal_zero_or_nan:
  assumes "i < N" and "j < N"
  shows "entry (compute_pij points sigma N NDIMS) N i j =
           entry (compute_pij points sigma N NDIMS) N j i
       \<and> (feq (entry (compute_pij points sigma N NDIMS) N i j)
               (entry (compute_pij points sigma N NDIMS) N j i)
            \<longleftrightarrow> entry (compute_pij points sigma N NDIMS) N i j \<noteq> NaN)
       \<and> entry (compute_pij points sigma N NDIMS) N i i =
           (if reduce_sum (pij_kernel points sigma N NDIMS) N N 1 ! i = Fin 0
               \<or> reduce_sum (pij_kernel points sigma N NDIMS) N N 1 ! i = NaN
            then NaN else Fin 0)
       \<and> entry (b_qij (gradients_affinities b ys N PROJDIM)) N i j =
           entry (b_qij (gradients_affinities b ys N PROJDIM)) N j i
       \<and> (feq (entry (b_qij (gradients_affinities b ys N PROJDIM)) N i j)
               (entry (b_qij (gradients_affinities b ys N PROJDIM)) N j i)
            \<longleftrightarrow> entry (b_qij (gradients_affinities b ys N PROJDIM)) N i j \<noteq> NaN)
       \<and> entry (b_qij (gradients_affinities b ys N PROJDIM)) N i i =
           (if fsum (b_dist (gradients_affinities b ys N PROJDIM)) = Fin 0
               \<or> fsum (b_dist (gradients_affinities b ys N PROJDIM)) = NaN
            then NaN else Fin 0)"
proof -
  let ?P = "compute_pij points sigma N NDIMS"
  let ?a = "gradients_affinities b ys N PROJDIM"
  have P: "entry ?P N i j = entry ?P N j i"
    using assms by (simp add: compute_pij_entry fadd_commute)
  have Pd: "entry ?P N i i =
      (if reduce_sum (pij_kernel points sigma N NDIMS) N N 1 ! i = Fin 0
          \<or> reduce_sum (pij_kernel points sigma N NDIMS) N N 1 ! i = NaN
       then NaN else Fin 0)"
    using assms(1)
    by (simp add: compute_pij_entry pij_vals_entry pij_kernel_entry fdiv_zero_left
        fadd_def fmul_def flt_overflow_def)
  have D: "entry (b_dist ?a) N i j = entry (b_dist ?a) N j i"
    using assms sqdist_sym[OF assms, of ys PROJDIM] by (auto simp: dist_entry)
  have Q: "entry (b_qij ?a) N i j = entry (b_qij ?a) N j i"
    using qij_nth[OF idx_lt[OF assms], of b ys PROJDIM]
      qij_nth[OF idx_lt[OF assms(2,1)], of b ys PROJDIM] D
    by (simp add: entry_def)
  have Qd: "entry (b_qij ?a) N i i =
      (if fsum (b_dist ?a) = Fin 0 \<or> fsum (b_dist ?a) = NaN then NaN else Fin 0)"
    using qij_nth[OF idx_lt[OF assms(1,1)], of b ys PROJDIM] dist_entry[OF assms(1,1), of b ys PROJDIM]
    by (simp add: entry_def fdiv_zero_left)
  show ?thesis
    unfolding Pd Qd using P Q by (simp add: feq_self)
qed

lemma pij_kernel_sample:
  "pij_kernel [Fin 0, Fin 1] [Fin (1 / 2), Fin (1 / 2)] 2 1 =
     [Fin 0, Fin (exp (- 2)), Fin (exp (- 2)), Fin 0]"
  by (simp add: pij_kernel_def squared_pairwise_dist_def math_square_def
      broadcast_matrix_vector_def func_exp_def zero_diagonal_def upt_0_1 upt_0_2 upt_0_4
      entry_def fsum_def fsub_def Let_def fadd_def fmul_def fdiv_def flt_overflow_def
      fexp_m2 fexp_0 del: fexp.simps)

lemma kernel_sums_sample:
  "reduce_sum [Fin 0, Fin (exp (- 2)), Fin (exp (- 2)), Fin 0] 2 2 1 =
     [Fin (exp (- 2)), Fin (exp (- 2))]"
  using exp_m2_lower exp_m2_upper
  by (simp add: reduce_sum_def reduce_alpha_def upt_0_2 entry_def fsum_def fmul_def
      flt_overflow_def)

lemma pij_vals_sample:
  "pij_vals [Fin 0, Fin 1] [Fin (1 / 2), Fin (1 / 2)] 2 1 = [Fin 0, Fin 1, Fin 1, Fin 0]"
  unfolding pij_vals_def Let_def pij_kernel_sample kernel_sums_sample
  using exp_m2_lower exp_m2_upper
  by (simp add: broadcast_matrix_vector_def upt_0_4 fmul_def fdiv_def flt_overflow_def)

lemma compute_pij_sample:
  "compute_pij [Fin 0, Fin 1] [Fin (1 / 2), Fin (1 / 2)] 2 1 = [Fin 0, Fin 1, Fin 1, Fin 0]"
  unfolding compute_pij_def Let_def pij_vals_sample
  by (simp add: cublasSgeam_N_T_def upt_0_4 entry_def fadd_def fmul_def flt_overflow_def)

theorem pij_qij_symmetric_diagonal_zero_or_nan_witness:
  "(0::nat) < 2 \<and> (1::nat) < 2 \<and>
   entry (compute_pij [Fin 0, Fin 1] [Fin (1 / 2), Fin (1 / 2)] 2 1) 2 0 1 =
     entry (compute_pij [Fin 0, Fin 1] [Fin (1 / 2), Fin (1 / 2)] 2 1) 2 1 0 \<and>
   feq (entry (compute_pij [Fin 0, Fin 1] [Fin (1 / 2), Fin (1 / 2)] 2 1) 2 0 1)
       (entry (compute_pij [Fin 0, Fin 1] [Fin (1 / 2), Fin (1 / 2)] 2 1) 2 1 0) \<and>
   entry (compute_pij [Fin 0, Fin 1] [Fin (1 / 2), Fin (1 / 2)] 2 1) 2 0 1 = Fin 1 \<and>
   reduce_sum (pij_kernel [Fin 0, Fin 1] [Fin (1 / 2), Fin (1 / 2)] 2 1) 2 2 1 ! 0
     = Fin (exp (- 2)) \<and>
   entry (compute_pij [Fin 0, Fin 1] [Fin (1 / 2), Fin (1 / 2)] 2 1) 2 0 0 = Fin 0 \<and>
   b_qij (gradients_affinities
          \<lparr>b_forces = [Fin 0, Fin 0], b_dist = [Fin 0, Fin 0, Fin 0, Fin 0],
           b_qij = [Fin 0, Fin 0, Fin 0, Fin 0]\<rparr> [Fin 0, Fin 1] 2 1)
     = [Fin 0, Fin (1 / 2), Fin (1 / 2), Fin 0] \<and>
   fsum (b_dist (gradients_affinities
          \<lparr>b_forces = [Fin 0, Fin 0], b_dist = [Fin 0, Fin 0, Fin 0, Fin 0],
           b_qij = [Fin 0, Fin 0, Fin 0, Fin 0]\<rparr> [Fin 0, Fin 1] 2 1)) = Fin 1"
  using pij_qij_symmetric_diagonal_zero_or_nan[of 0 2 1 "[Fin 0, Fin 1]"
          "[Fin (1 / 2), Fin (1 / 2)]" 1
          "\<lparr>b_forces = [Fin 0, Fin 0], b_dist = [Fin 0, Fin 0, Fin 0, Fin 0],
           b_qij = [Fin 0, Fin 0, Fin 0, Fin 0]\<rparr>" "[Fin 0, Fin 1]" 1]
  unfolding compute_pij_sample pij_kernel_sample kernel_sums_sample gradients_affinities_0_1
  by (simp add: entry_def fsum_def flt_overflow_def)

subsection \<open>Normalisation\<close>

lemma is_fin_val: "is_fin x \<Longrightarrow> Fin (val x) = x"
  by (cases x) simp_all

lemma to_range_is_fin: "is_fin (to_range x) \<Longrightarrow> is_fin x"
  by (cases x) simp_all

lemma to_range_unit: "0 \<le> r \<Longrightarrow> r \<le> 1 \<Longrightarrow> to_range (Fin r) = Fin r"
  by (simp add: flt_overflow_def)

lemma add_exact_is_fin: "is_fin (add_exact a x) \<Longrightarrow> is_fin a \<and> is_fin x"
  by (cases a; cases x) simp_all

lemma foldl_add_exact_is_fin:
  "is_fin (foldl add_exact a xs) \<Longrightarrow> is_fin a \<and> list_all is_fin xs"
proof (induction xs arbitrary: a)
  case Nil
  then show ?case by simp
next
  case (Cons x xs)
  from Cons.prems have "is_fin (foldl add_exact (add_exact a x) xs)" by simp
  from Cons.IH[OF this] have "is_fin (add_exact a x)" and "list_all is_fin xs" by simp_all
  then show ?case using add_exact_is_fin[of a x] by simp
qed

lemma fsum_is_fin: "is_fin (fsum xs) \<Longrightarrow> list_all is_fin xs"
  unfolding fsum_def using foldl_add_exact_is_fin[of "Fin 0" xs] to_range_is_fin by blast

lemma fexp_Fin_nonneg: "fexp x = Fin r \<Longrightarrow> 0 \<le> r"
  by (cases x) (auto split: if_splits)

lemma pij_kernel_nonneg:
  "i < N \<Longrightarrow> j < N \<Longrightarrow> entry (pij_kernel points sigma N NDIMS) N i j = Fin r \<Longrightarrow> 0 \<le> r"
  by (auto simp: pij_kernel_entry func_exp_def split: if_splits dest: fexp_Fin_nonneg)

text \<open>C5. The claim: for every point set and all strictly positive bandwidths each column of
  the matrix before the symmetrisation sums to 1. With a single point the only entry is on
  the diagonal, it is zeroed, the column sum is 0 and the normalisation computes \<open>0 / 0\<close>:
  the column holds NaN and so does its sum.\<close>

theorem single_point_column_sum_nan:
  "reduce_sum (pij_vals [Fin 0] [Fin (1 / 4)] 1 1) 1 1 1 ! 0 = NaN \<and>
   reduce_sum (pij_vals [Fin 0] [Fin (1 / 4)] 1 1) 1 1 1 ! 0 \<noteq> Fin 1"
  by (simp add: pij_vals_def pij_kernel_def squared_pairwise_dist_def math_square_def
      broadcast_matrix_vector_def func_exp_def zero_diagonal_def reduce_sum_def reduce_alpha_def
      upt_0_1 entry_def fsum_def fsub_def Let_def fadd_def fmul_def fdiv_def flt_overflow_def)

text \<open>C5, as the code has it: the normalisation divides each entry of column \<open>i\<close> (the
  entries \<open>(i, j)\<close> over \<open>j\<close>) by the sum of the kernel values of that column, and a column
  whose sum of kernel values is finite and not 0 sums to 1 afterwards, in arithmetic that
  does not round. A column whose kernel values are all 0 (a single point, or every
  exponential underflowing) has the sum 0 and is left out.\<close>

theorem normalized_column_sums_to_one:
  assumes "i < N"
    and "is_fin (reduce_sum (pij_kernel points sigma N NDIMS) N N 1 ! i)"
    and "reduce_sum (pij_kernel points sigma N NDIMS) N N 1 ! i \<noteq> Fin 0"
  shows "(\<forall>j<N. entry (pij_vals points sigma N NDIMS) N i j =
                  fdiv (entry (pij_kernel points sigma N NDIMS) N i j)
                       (reduce_sum (pij_kernel points sigma N NDIMS) N N 1 ! i))
       \<and> reduce_sum (pij_vals points sigma N NDIMS) N N 1 ! i = Fin 1"
proof -
  let ?K = "pij_kernel points sigma N NDIMS"
  let ?V = "pij_vals points sigma N NDIMS"
  let ?s = "reduce_sum ?K N N 1 ! i"
  define k where "k j = val (entry ?K N i j)" for j
  define S where "S = (\<Sum>j<N. k j)"
  have s: "?s = fsum (map (\<lambda>j. entry ?K N i j) [0..<N])"
    by (rule reduce_sum_nth[OF assms(1)])
  have fin: "list_all is_fin (map (\<lambda>j. entry ?K N i j) [0..<N])"
    using assms(2) unfolding s by (rule fsum_is_fin)
  have kj: "entry ?K N i j = Fin (k j)" if "j < N" for j
    using fin that by (simp add: list_all_iff k_def is_fin_val)
  have k0: "0 \<le> k j" if "j < N" for j
    using pij_kernel_nonneg[OF assms(1) that kj[OF that]] .
  have col: "map (\<lambda>j. entry ?K N i j) [0..<N] = map (\<lambda>j. Fin (k j)) [0..<N]"
    by (intro map_ext) (simp add: kj)
  have sS: "?s = to_range (Fin S)"
    unfolding s col S_def by (rule fsum_upt_Fin)
  have S_fin: "?s = Fin S"
    using assms(2) unfolding sS by (auto split: if_splits)
  have S0: "S \<noteq> 0" using assms(3) S_fin by simp
  have "0 \<le> S" unfolding S_def using k0 by (intro sum_nonneg) simp
  with S0 have Spos: "0 < S" by simp
  have kle: "k j \<le> S" if "j < N" for j
    unfolding S_def using k0 that by (intro member_le_sum) auto
  have ratio: "fdiv (Fin (k j)) (Fin S) = Fin (k j / S)" if "j < N" for j
  proof -
    have "0 \<le> k j / S" and "k j / S \<le> 1"
      using Spos k0[OF that] kle[OF that] by simp_all
    then have "to_range (Fin (k j / S)) = Fin (k j / S)" by (rule to_range_unit)
    then show ?thesis using S0 by (simp add: fdiv_def)
  qed
  have V: "entry ?V N i j = fdiv (entry ?K N i j) ?s" if "j < N" for j
    by (rule pij_vals_entry[OF assms(1) that])
  have Vr: "entry ?V N i j = Fin (k j / S)" if "j < N" for j
    unfolding V[OF that] S_fin kj[OF that] by (rule ratio[OF that])
  have colV: "map (\<lambda>j. entry ?V N i j) [0..<N] = map (\<lambda>j. Fin (k j / S)) [0..<N]"
    by (intro map_ext) (simp add: Vr)
  have total: "(\<Sum>j<N. k j / S) = 1"
    using S0 by (simp add: sum_divide_distrib[symmetric] S_def)
  have "reduce_sum ?V N N 1 ! i = fsum (map (\<lambda>j. entry ?V N i j) [0..<N])"
    by (rule reduce_sum_nth[OF assms(1)])
  also have "\<dots> = to_range (Fin (\<Sum>j<N. k j / S))"
    unfolding colV by (rule fsum_upt_Fin)
  also have "\<dots> = Fin 1"
    unfolding total by (simp add: flt_overflow_def)
  finally have "reduce_sum ?V N N 1 ! i = Fin 1" .
  with V show ?thesis by simp
qed

theorem normalized_column_sums_to_one_witness:
  "(0::nat) < 2 \<and>
   is_fin (reduce_sum (pij_kernel [Fin 0, Fin 1] [Fin (1 / 2), Fin (1 / 2)] 2 1) 2 2 1 ! 0) \<and>
   reduce_sum (pij_kernel [Fin 0, Fin 1] [Fin (1 / 2), Fin (1 / 2)] 2 1) 2 2 1 ! 0 \<noteq> Fin 0 \<and>
   reduce_sum (pij_kernel [Fin 0, Fin 1] [Fin (1 / 2), Fin (1 / 2)] 2 1) 2 2 1 ! 0
     = Fin (exp (- 2)) \<and>
   entry (pij_vals [Fin 0, Fin 1] [Fin (1 / 2), Fin (1 / 2)] 2 1) 2 0 1 = Fin 1 \<and>
   reduce_sum (pij_vals [Fin 0, Fin 1] [Fin (1 / 2), Fin (1 / 2)] 2 1) 2 2 1 ! 0 = Fin 1"
  using normalized_column_sums_to_one[of 0 2 "[Fin 0, Fin 1]" "[Fin (1 / 2), Fin (1 / 2)]" 1]
  unfolding pij_kernel_sample kernel_sums_sample pij_vals_sample
  by (simp add: entry_def)

end
